theory Spec2Isabelle
  imports Complex_Main "HOL-Library.AList"
begin

section \<open>Data model of the clearance sheets\<close>

text \<open>
  A cell of a pandas column is a number or the missing value (NaN in a float64 column,
  None or NaN in an object column; an empty spreadsheet cell reads as missing).  Floats
  are idealised as real numbers: rounding, overflow and the infinities are not modelled,
  the missing value is.  Text cells are outside the model.
\<close>

datatype cell = Num real | NaN

datatype error = KeyError | ValueError | TypeError | FileNotFoundError

type_synonym series = "cell list"

text \<open>
  The dtype of the columns of a sheet.  \<open>pd.DataFrame(ws.values)\<close> reads the header row
  with the rows below it, so every column of the frame that \<open>process_workbook\<close> builds is
  of dtype object; a frame of numbers that is built otherwise has float64 columns.
\<close>

datatype dtype = Float64 | Object

text \<open>
  A DataFrame with the default index \<open>0 .. nrows - 1\<close> (what \<open>reset_index(drop=True)\<close>
  leaves), the dtype of the columns it was built with, and its columns in order, each a
  series.
\<close>

record frame =
  nrows :: nat
  sheet_dtype :: dtype
  columns :: "(string \<times> series) list"

definition wf_frame :: "frame \<Rightarrow> bool" where
  "wf_frame df \<longleftrightarrow>
     distinct (map fst (columns df)) \<and>
     list_all (\<lambda>p. length (snd p) = nrows df) (columns df)"

subsection \<open>Float arithmetic with NaN\<close>

fun cell_add :: "cell \<Rightarrow> cell \<Rightarrow> cell" where
  "cell_add (Num a) (Num b) = Num (a + b)"
| "cell_add _ _ = NaN"

fun cell_sub :: "cell \<Rightarrow> cell \<Rightarrow> cell" where
  "cell_sub (Num a) (Num b) = Num (a - b)"
| "cell_sub _ _ = NaN"

fun cell_mul :: "cell \<Rightarrow> cell \<Rightarrow> cell" where
  "cell_mul (Num a) (Num b) = Num (a * b)"
| "cell_mul _ _ = NaN"

text \<open>\<open>np.sqrt\<close> on a float: NaN below zero (a warning, no exception).\<close>

fun np_sqrt :: "cell \<Rightarrow> cell" where
  "np_sqrt (Num a) = (if a < 0 then NaN else Num (sqrt a))"
| "np_sqrt NaN = NaN"

text \<open>
  \<open>np.sqrt\<close> on a series of dtype object calls the method \<open>sqrt\<close> of each value; a
  Python float or int has none, and neither has None, so the call raises a TypeError as
  soon as the series holds a row.
\<close>

definition sqrt_raises :: "dtype \<Rightarrow> series \<Rightarrow> bool" where
  "sqrt_raises dt xs \<longleftrightarrow> dt = Object \<and> xs \<noteq> []"

text \<open>
  One row of \<open>DataFrame.max(axis=1)\<close> over two columns, with the default
  \<open>skipna=True\<close>: missing values are left out, and the result is missing only when
  both are.
\<close>

fun row_max :: "cell \<Rightarrow> cell \<Rightarrow> cell" where
  "row_max (Num a) (Num b) = Num (max a b)"
| "row_max (Num a) NaN = Num a"
| "row_max NaN (Num b) = Num b"
| "row_max NaN NaN = NaN"

text \<open>\<open>x > y\<close> on floats: false as soon as one side is NaN.\<close>

fun cell_gt :: "cell \<Rightarrow> cell \<Rightarrow> bool" where
  "cell_gt (Num a) (Num b) \<longleftrightarrow> a > b"
| "cell_gt _ _ \<longleftrightarrow> False"

subsection \<open>Column access\<close>

text \<open>\<open>col in df.columns\<close>\<close>

definition has_col :: "frame \<Rightarrow> string \<Rightarrow> bool" where
  "has_col df c \<longleftrightarrow> c \<in> set (map fst (columns df))"

text \<open>\<open>df[c]\<close>, a KeyError when the column is absent.\<close>

definition getitem :: "frame \<Rightarrow> string \<Rightarrow> error + series" where
  "getitem df c = (case map_of (columns df) c of None \<Rightarrow> Inl KeyError | Some xs \<Rightarrow> Inr xs)"

text \<open>
  \<open>df[c] = xs\<close>: an existing column is replaced where it stands, a new one is appended.
\<close>

definition setitem :: "frame \<Rightarrow> string \<Rightarrow> series \<Rightarrow> frame" where
  "setitem df c xs = df\<lparr>columns := AList.update c xs (columns df)\<rparr>"

text \<open>\<open>df[c] = x\<close> for a scalar \<open>x\<close>: the scalar in every row.\<close>

definition setscalar :: "frame \<Rightarrow> string \<Rightarrow> cell \<Rightarrow> frame" where
  "setscalar df c x = setitem df c (replicate (nrows df) x)"

text \<open>Sequencing of a step that may raise.\<close>

definition bind :: "error + 'a \<Rightarrow> ('a \<Rightarrow> error + 'b) \<Rightarrow> error + 'b" where
  "bind m k = (case m of Inl e \<Rightarrow> Inl e | Inr x \<Rightarrow> k x)"

subsection \<open>Formatting of integers\<close>

fun digits_of :: "nat \<Rightarrow> string" where
  "digits_of n =
     (if n < 10 then [''0123456789'' ! n]
      else digits_of (n div 10) @ [''0123456789'' ! (n mod 10)])"

declare digits_of.simps [simp del]

text \<open>\<open>str(i)\<close> as an f-string writes it.\<close>

definition str_int :: "int \<Rightarrow> string" where
  "str_int i = (if i < 0 then CHR ''-'' # digits_of (nat (- i)) else digits_of (nat i))"

section \<open>calculations.py\<close>

definition CIRCUIT_1 :: "int set" where
  "CIRCUIT_1 = {41, 42, 43}"

definition CIRCUIT_2 :: "int set" where
  "CIRCUIT_2 = {44, 45, 46}"

definition EARTH_WIRE :: int where
  "EARTH_WIRE = 0"

definition which_circuit :: "int \<Rightarrow> int" where
  "which_circuit tower =
     (if tower \<in> CIRCUIT_1 then 1
      else if tower \<in> CIRCUIT_2 then 2
      else EARTH_WIRE)"

definition candidates :: "int \<Rightarrow> int \<Rightarrow> string list" where
  "candidates a b =
     [''Straight Distance of '' @ str_int a @ ''-'' @ str_int b,
      ''Sag of '' @ str_int a @ ''-'' @ str_int b]"

text \<open>
  \<open>_pick_distance_col\<close>: the first accepted name that is a column of the frame, a
  KeyError when neither is.
\<close>

definition pick_distance_col :: "frame \<Rightarrow> int \<Rightarrow> int \<Rightarrow> error + string" where
  "pick_distance_col df a b =
     (case filter (has_col df) (candidates a b) of
        [] \<Rightarrow> Inl KeyError
      | col # _ \<Rightarrow> Inr col)"

definition beta_col :: string where
  "beta_col = ''Beta Angle ('' @ [CHR 0xB0] @ '')''"

definition dist_col :: string where
  "dist_col = ''Distance Between Powerlines''"

text \<open>
  \<open>Series.idxmin()\<close> with the default \<open>skipna=True\<close>: the first position of the least
  value that is not missing.  The scan keeps the best position so far and replaces it
  only by a strictly smaller value.  An object column of numbers is scanned as a float64
  column is.
\<close>

fun idxmin_scan :: "series \<Rightarrow> nat \<Rightarrow> (nat \<times> real) option \<Rightarrow> (nat \<times> real) option" where
  "idxmin_scan [] i best = best"
| "idxmin_scan (NaN # xs) i best = idxmin_scan xs (Suc i) best"
| "idxmin_scan (Num v # xs) i best =
     idxmin_scan xs (Suc i)
       (case best of
          None \<Rightarrow> Some (i, v)
        | Some (j, w) \<Rightarrow> if v < w then Some (i, v) else Some (j, w))"

text \<open>
  On an empty series, and on one with no value at all, the call or the \<open>df.loc\<close> that
  follows it raises; the model names the exception ValueError.
\<close>

definition idxmin :: "series \<Rightarrow> error + nat" where
  "idxmin xs = (case idxmin_scan xs 0 None of None \<Rightarrow> Inl ValueError | Some (i, _) \<Rightarrow> Inr i)"

text \<open>\<open>df.loc[i, c]\<close> read and written, for a row label \<open>i\<close> of the index.\<close>

definition loc :: "frame \<Rightarrow> nat \<Rightarrow> string \<Rightarrow> error + cell" where
  "loc df i c =
     bind (getitem df c) (\<lambda>xs. if i < length xs then Inr (xs ! i) else Inl KeyError)"

definition set_loc :: "frame \<Rightarrow> nat \<Rightarrow> string \<Rightarrow> cell \<Rightarrow> error + frame" where
  "set_loc df i c v =
     bind (getitem df c) (\<lambda>xs. Inr (setitem df c (xs[i := v])))"

text \<open>\<open>-(0.1 / 90.0) * beta + 0.75\<close> on one row.\<close>

definition K_of :: "cell \<Rightarrow> cell" where
  "K_of beta = cell_add (cell_mul (Num (- (0.1 / 90.0))) beta) (Num 0.75)"

text \<open>Steps 2-3 to 2-5 of \<open>process_sheet\<close>: the columns sag, K and LK.\<close>

definition add_sag_K_LK :: "frame \<Rightarrow> int \<Rightarrow> int \<Rightarrow> int \<Rightarrow> int \<Rightarrow> error + frame" where
  "add_sag_K_LK df d1 d2 d3 d4 =
     bind (pick_distance_col df d1 d2) (\<lambda>col_sd12.
     bind (pick_distance_col df d3 d4) (\<lambda>col_sd34.
     bind (getitem df col_sd12) (\<lambda>sd12.
     bind (getitem df col_sd34) (\<lambda>sd34.
     let df = setitem df ''sag'' (map2 row_max sd12 sd34) in
     bind (getitem df beta_col) (\<lambda>beta.
     let df = setitem df ''K'' (map K_of beta);
         df = setscalar df ''LK'' (Num 2)
     in Inr df)))))"

text \<open>The formula \<open>K * sqrt(sag + LK) + C1 + C2\<close> on one row.\<close>

definition formula :: "cell \<Rightarrow> cell \<Rightarrow> cell \<Rightarrow> cell \<Rightarrow> cell \<Rightarrow> cell" where
  "formula k sag lk c1 c2 =
     cell_add (cell_add (cell_mul k (np_sqrt (cell_add sag lk))) c1) c2"

fun map5 :: "('a \<Rightarrow> 'b \<Rightarrow> 'c \<Rightarrow> 'd \<Rightarrow> 'e \<Rightarrow> 'f) \<Rightarrow>
    'a list \<Rightarrow> 'b list \<Rightarrow> 'c list \<Rightarrow> 'd list \<Rightarrow> 'e list \<Rightarrow> 'f list" where
  "map5 f (a # as) (b # bs) (c # cs) (d # ds) (e # es) = f a b c d e # map5 f as bs cs ds es"
| "map5 f _ _ _ _ _ = []"

text \<open>
  \<open>df["required-distance"] = df["K"] * np.sqrt(df["sag"] + df["LK"]) + df["C1"] + df["C2"]\<close>,
  for the dtype that the column sag has at this line; the sum \<open>df["sag"] + df["LK"]\<close> of
  an object column and a float64 column is an object series.
\<close>

definition set_required_formula :: "dtype \<Rightarrow> frame \<Rightarrow> error + frame" where
  "set_required_formula sag_dtype df =
     bind (getitem df ''K'') (\<lambda>k.
     bind (getitem df ''sag'') (\<lambda>sag.
     bind (getitem df ''LK'') (\<lambda>lk.
     if sqrt_raises sag_dtype (map2 cell_add sag lk) then Inl TypeError
     else
     bind (getitem df ''C1'') (\<lambda>c1.
     bind (getitem df ''C2'') (\<lambda>c2.
     Inr (setitem df ''required-distance'' (map5 formula k sag lk c1 c2)))))))"

text \<open>
  Step 2-6: C1, C2 and the required distance, by the circuits of d1 and d3.  The column
  sag is the row maximum of two columns of the sheet and has their dtype: calculations.py
  takes the square root of it as it is.
\<close>

definition add_required :: "frame \<Rightarrow> int \<Rightarrow> int \<Rightarrow> error + frame" where
  "add_required df d1 d3 =
     (let cir1 = which_circuit d1; cir3 = which_circuit d3 in
      if EARTH_WIRE \<in> {cir1, cir3} then
        (let df = setscalar df ''C1'' (Num 1.93);
             df = setscalar df ''C2'' (Num 0.0)
         in bind (getitem df ''C1'') (\<lambda>c1. Inr (setitem df ''required-distance'' c1)))
      else
        (let same_circuit = (cir1 = cir3);
             df = (if same_circuit
                   then setscalar (setscalar df ''C1'' (Num 1.93)) ''C2'' (Num 0.0)
                   else setscalar (setscalar df ''C1'' (Num 0.0)) ''C2'' (Num 2.29))
         in set_required_formula (sheet_dtype df) df))"

text \<open>Step 2-8: \<open>diff = actual - required\<close>.\<close>

definition add_diff :: "frame \<Rightarrow> error + frame" where
  "add_diff df =
     bind (getitem df dist_col) (\<lambda>cur.
     bind (getitem df ''required-distance'') (\<lambda>req.
     Inr (setitem df ''diff'' (map2 cell_sub cur req))))"

text \<open>Step 2-9: the worst case, one value, the other cells left blank.\<close>

definition add_worst_case :: "frame \<Rightarrow> error + frame" where
  "add_worst_case df =
     bind (getitem df ''diff'') (\<lambda>diff.
     bind (idxmin diff) (\<lambda>worst_idx.
     bind (loc df worst_idx ''diff'') (\<lambda>worst_val.
     let df = setscalar df ''worst-case'' NaN
     in set_loc df worst_idx ''worst-case'' worst_val)))"

text \<open>\<open>process_sheet\<close> of calculations.py.\<close>

definition process_sheet :: "frame \<Rightarrow> int \<Rightarrow> int \<Rightarrow> int \<Rightarrow> int \<Rightarrow> error + frame" where
  "process_sheet df d1 d2 d3 d4 =
     bind (add_sag_K_LK df d1 d2 d3 d4) (\<lambda>df.
     bind (add_required df d1 d3) (\<lambda>df.
     bind (add_diff df) add_worst_case))"

section \<open>calculations-copy.py\<close>

text \<open>
  \<open>pd.to_numeric(errors="coerce")\<close> on one value: a number stays what it is, a missing
  value stays missing (None becomes NaN).
\<close>

fun to_numeric :: "cell \<Rightarrow> cell" where
  "to_numeric (Num a) = Num a"
| "to_numeric NaN = NaN"

text \<open>\<open>df[cols] = df[cols].apply(pd.to_numeric, errors="coerce")\<close>\<close>

fun coerce_cols :: "frame \<Rightarrow> string list \<Rightarrow> error + frame" where
  "coerce_cols df [] = Inr df"
| "coerce_cols df (c # cs) =
     bind (getitem df c) (\<lambda>xs. coerce_cols (setitem df c (map to_numeric xs)) cs)"

definition cols_to_float :: "string list" where
  "cols_to_float = [''K'', ''sag'', ''LK'', ''C1'', ''C2'']"

text \<open>
  Step 2-6 of the copy: as in calculations.py, with the coercion before the formula.  The
  coercion leaves the five columns float64, whatever the dtype of the sheet is.
\<close>

definition add_required_copy :: "frame \<Rightarrow> int \<Rightarrow> int \<Rightarrow> error + frame" where
  "add_required_copy df d1 d3 =
     (let cir1 = which_circuit d1; cir3 = which_circuit d3 in
      if EARTH_WIRE \<in> {cir1, cir3} then
        (let df = setscalar df ''C1'' (Num 1.93);
             df = setscalar df ''C2'' (Num 0.0)
         in bind (getitem df ''C1'') (\<lambda>c1. Inr (setitem df ''required-distance'' c1)))
      else
        (let same_circuit = (cir1 = cir3);
             df = (if same_circuit
                   then setscalar (setscalar df ''C1'' (Num 1.93)) ''C2'' (Num 0.0)
                   else setscalar (setscalar df ''C1'' (Num 0.0)) ''C2'' (Num 2.29))
         in bind (coerce_cols df cols_to_float) (set_required_formula Float64)))"

text \<open>The summary dictionary of the worst-case row.\<close>

record summary =
  s_row_num :: nat
  s_station :: cell
  s_sag :: cell
  s_lk :: cell
  s_beta :: cell
  s_k_factor :: cell
  s_c1 :: cell
  s_c2 :: cell
  s_req :: cell
  s_cur :: cell
  s_ok_flag :: string

text \<open>\<open>Series.first_valid_index()\<close>: the first row that holds a value, if any.\<close>

definition first_valid_index :: "series \<Rightarrow> nat option" where
  "first_valid_index xs = find (\<lambda>i. xs ! i \<noteq> NaN) [0..<length xs]"

text \<open>
  The summary of the row with the worst-case value.  \<open>None + 2\<close> is a TypeError, a
  column that is absent (\<open>Station\<close>) a KeyError.
\<close>

definition make_summary :: "frame \<Rightarrow> error + summary" where
  "make_summary df =
     bind (getitem df ''worst-case'') (\<lambda>wc.
     (case first_valid_index wc of
        None \<Rightarrow> Inl TypeError
      | Some worst_idx \<Rightarrow>
     bind (loc df worst_idx ''Station'') (\<lambda>station.
     bind (loc df worst_idx ''sag'') (\<lambda>sag.
     bind (loc df worst_idx ''LK'') (\<lambda>lk.
     bind (loc df worst_idx beta_col) (\<lambda>beta.
     bind (loc df worst_idx ''K'') (\<lambda>k.
     bind (loc df worst_idx ''C1'') (\<lambda>c1.
     bind (loc df worst_idx ''C2'') (\<lambda>c2.
     bind (loc df worst_idx ''required-distance'') (\<lambda>req.
     bind (loc df worst_idx dist_col) (\<lambda>cur.
     Inr \<lparr>s_row_num = worst_idx + 2, s_station = station, s_sag = sag, s_lk = lk,
          s_beta = beta, s_k_factor = k, s_c1 = c1, s_c2 = c2, s_req = req, s_cur = cur,
          s_ok_flag = (if cell_gt req cur then ''not ok'' else ''ok'')\<rparr>)))))))))))"

text \<open>\<open>process_sheet\<close> of calculations-copy.py: the augmented frame and the summary.\<close>

definition process_sheet_copy ::
    "frame \<Rightarrow> int \<Rightarrow> int \<Rightarrow> int \<Rightarrow> int \<Rightarrow> error + frame \<times> summary" where
  "process_sheet_copy df d1 d2 d3 d4 =
     bind (add_sag_K_LK df d1 d2 d3 d4) (\<lambda>df.
     bind (add_required_copy df d1 d3) (\<lambda>df.
     bind (add_diff df) (\<lambda>df.
     bind (add_worst_case df) (\<lambda>df.
     bind (make_summary df) (\<lambda>summ. Inr (df, summ))))))"

section \<open>Regular expressions of the scripts\<close>

text \<open>
  The patterns of the scripts are sequences of single characters and repeated character
  classes, with groups around runs of them.  Strings are lists of 8-bit characters, so
  the names are Latin-1 text; there \<open>\d\<close> is \<open>0-9\<close>.
\<close>

datatype cls =
    Chr char      \<comment> \<open>the character itself\<close>
  | Fold char     \<comment> \<open>the letter in either case, under \<open>re.I\<close>\<close>
  | Any           \<comment> \<open>\<open>.\<close>: any character but a newline\<close>
  | Digit         \<comment> \<open>\<open>\d\<close>\<close>
  | DigitHyphen   \<comment> \<open>\<open>[0-9\-]\<close>\<close>

definition lower :: "char \<Rightarrow> char" where
  "lower c =
     (case map_of (zip ''ABCDEFGHIJKLMNOPQRSTUVWXYZ'' ''abcdefghijklmnopqrstuvwxyz'') c of
        Some l \<Rightarrow> l
      | None \<Rightarrow> c)"

definition is_digit :: "char \<Rightarrow> bool" where
  "is_digit c \<longleftrightarrow> c \<in> set ''0123456789''"

fun in_cls :: "cls \<Rightarrow> char \<Rightarrow> bool" where
  "in_cls (Chr c) x \<longleftrightarrow> x = c"
| "in_cls (Fold c) x \<longleftrightarrow> lower x = lower c"
| "in_cls Any x \<longleftrightarrow> x \<noteq> CHR 0x0A"
| "in_cls Digit x \<longleftrightarrow> is_digit x"
| "in_cls DigitHyphen x \<longleftrightarrow> is_digit x \<or> x = CHR ''-''"

datatype mode = Greedy | Lazy

text \<open>
  \<open>Rep m lo c\<close> is \<open>c\<close> repeated \<open>lo\<close> times or more: \<open>c+\<close>, \<open>c+?\<close>, \<open>c*\<close>.
  \<open>End\<close> is \<open>$\<close>: the end of the string, or the place before a newline that ends it.
\<close>

datatype item = One cls | Rep mode nat cls | End

fun first_some :: "'a option list \<Rightarrow> 'a option" where
  "first_some [] = None"
| "first_some (None # xs) = first_some xs"
| "first_some (Some x # xs) = Some x"

text \<open>
  The repetition counts a backtracking matcher tries, in its order: the longest run
  first when greedy, the shortest first when lazy.
\<close>

definition counts :: "mode \<Rightarrow> nat \<Rightarrow> nat \<Rightarrow> nat list" where
  "counts m lo hi = (case m of Greedy \<Rightarrow> rev [lo..<Suc hi] | Lazy \<Rightarrow> [lo..<Suc hi])"

text \<open>
  Matching at the start of the string: the text each item consumes in the first match
  that backtracking finds, or None.
\<close>

fun match_items :: "item list \<Rightarrow> string \<Rightarrow> string list option" where
  "match_items [] s = Some []"
| "match_items (One c # is) [] = None"
| "match_items (One c # is) (x # xs) =
     (if in_cls c x then map_option ((#) [x]) (match_items is xs) else None)"
| "match_items (Rep m lo c # is) s =
     first_some (map (\<lambda>n. map_option ((#) (take n s)) (match_items is (drop n s)))
       (counts m lo (length (takeWhile (in_cls c) s))))"
| "match_items (End # is) s =
     (if s = [] \<or> s = [CHR 0x0A] then map_option ((#) []) (match_items is s) else None)"

text \<open>The equation of a repetition is unfolded only where a proof asks for it.\<close>

declare match_items.simps(4) [simp del]

text \<open>\<open>re.match\<close> and \<open>re.search\<close>: the latter takes the first start that matches.\<close>

definition re_match :: "item list \<Rightarrow> string \<Rightarrow> string list option" where
  "re_match p s = match_items p s"

definition re_search :: "item list \<Rightarrow> string \<Rightarrow> string list option" where
  "re_search p s = first_some (map (\<lambda>i. match_items p (drop i s)) [0..<Suc (length s)])"

text \<open>The text of the items \<open>i ..< j\<close> of a match: a group.\<close>

definition group :: "string list \<Rightarrow> nat \<Rightarrow> nat \<Rightarrow> string" where
  "group ps i j = concat (take (j - i) (drop i ps))"

definition lit :: "string \<Rightarrow> item list" where
  "lit s = map (\<lambda>c. One (Chr c)) s"

section \<open>calculations-copy.py: workbooks and the run\<close>

definition foldlit :: "string \<Rightarrow> item list" where
  "foldlit s = map (\<lambda>c. One (Fold c)) s"

text \<open>
  \<open>Cond_10C_(TR\d{4}a\d{3})_(\d{3})\.xlsx$\<close> under \<open>re.I\<close>; its groups are the items
  9 to 18 and 20 to 22.
\<close>

definition FILE_RE :: "item list" where
  "FILE_RE =
     foldlit ''Cond_10C_'' @ foldlit ''TR'' @ replicate 4 (One Digit) @ foldlit ''a''
     @ replicate 3 (One Digit) @ foldlit ''_'' @ replicate 3 (One Digit) @ foldlit ''.xlsx''
     @ [End]"

text \<open>\<open>(\d+)-(\d+)_(\d+)-(\d+)$\<close>; its groups are the items 0, 2, 4 and 6.\<close>

definition SHEET_RE :: "item list" where
  "SHEET_RE =
     [Rep Greedy 1 Digit] @ lit ''-'' @ [Rep Greedy 1 Digit] @ lit ''_''
     @ [Rep Greedy 1 Digit] @ lit ''-'' @ [Rep Greedy 1 Digit, End]"

text \<open>\<open>int(s)\<close> for a string of digits.\<close>

definition digit_val :: "char \<Rightarrow> int" where
  "digit_val c = int (length (takeWhile (\<lambda>x. x \<noteq> c) ''0123456789''))"

definition int_of_digits :: "string \<Rightarrow> int" where
  "int_of_digits s = foldl (\<lambda>n c. 10 * n + digit_val c) 0 s"

text \<open>
  \<open>os.path.basename\<close>: the text after the last separator (the drive prefix of a Windows
  path is not modelled; a match of \<open>FILE_RE\<close> holds no separator and no colon).
\<close>

definition basename :: "string \<Rightarrow> string" where
  "basename p = rev (takeWhile (\<lambda>c. c \<noteq> CHR ''/'' \<and> c \<noteq> CHR 0x5C) (rev p))"

text \<open>\<open>_parse_sheet_name\<close>\<close>

definition parse_sheet_name :: "string \<Rightarrow> error + int \<times> int \<times> int \<times> int" where
  "parse_sheet_name sheet_name =
     (case re_match SHEET_RE sheet_name of
        None \<Rightarrow> Inl ValueError
      | Some m \<Rightarrow> Inr (int_of_digits (group m 0 1), int_of_digits (group m 2 3),
                       int_of_digits (group m 4 5), int_of_digits (group m 6 7)))"

text \<open>\<open>_load_metadata\<close>\<close>

definition load_metadata :: "string \<Rightarrow> error + string \<times> string" where
  "load_metadata xl_path =
     (case re_search FILE_RE (basename xl_path) of
        None \<Rightarrow> Inl ValueError
      | Some m \<Rightarrow> Inr (group m 9 19, group m 20 23))"

text \<open>
  The results workbook: a worksheet is its written cells, by row and column, and the
  greatest row that holds one.  A source workbook is modelled by the frames that its
  sheets give (the header row and the rows below it); a worksheet has no dtype, the
  frame read from it has object columns.
\<close>

datatype val = VNum cell | VStr string | VInt int

record worksheet =
  max_row :: nat
  cell_values :: "((nat \<times> nat) \<times> val) list"

type_synonym results_workbook = "(string \<times> worksheet) list"

type_synonym source_workbook = "(string \<times> frame) list"

text \<open>
  The files of a run: the workbook at \<open>RESULTS_PATH\<close>, if there is one, and the workbooks
  by their paths.
\<close>

record filesystem =
  results :: "results_workbook option"
  files :: "(string \<times> source_workbook) list"

definition PH_PH_SHEET :: string where
  "PH_PH_SHEET = ''Result_Dist_Ph-Ph (10'' @ [CHR 0xBA] @ ''C)''"

definition PH_EW_SHEET :: string where
  "PH_EW_SHEET = ''Result_Dist_Ph-EW''"

text \<open>
  \<open>_open_results_wb\<close>: the workbook must exist and hold the two template sheets.
\<close>

definition open_results_wb :: "filesystem \<Rightarrow> error + results_workbook" where
  "open_results_wb fs =
     (case results fs of
        None \<Rightarrow> Inl FileNotFoundError
      | Some wb \<Rightarrow>
          (let missing = filter (\<lambda>name. name \<notin> set (map fst wb)) [PH_PH_SHEET, PH_EW_SHEET]
           in if missing \<noteq> [] then Inl KeyError else Inr wb))"

definition COL_PH_EW :: "(string \<times> nat) list" where
  "COL_PH_EW =
     [(''row'', 1), (''src_start'', 2), (''src_end'', 3), (''src_set'', 4),
      (''src_phase'', 5), (''tgt_start'', 6), (''tgt_end'', 7), (''tgt_set'', 8),
      (''tgt_phase'', 9), (''station'', 10), (''wind'', 11), (''c1'', 12), (''c3'', 13),
      (''req'', 14), (''cur'', 15), (''ok'', 16)]"

definition COL_PH_PH :: "(string \<times> nat) list" where
  "COL_PH_PH =
     [(''row'', 1), (''src_start'', 2), (''src_end'', 3), (''src_set'', 4),
      (''src_phase'', 5), (''tgt_start'', 6), (''tgt_end'', 7), (''tgt_set'', 8),
      (''tgt_phase'', 9), (''station'', 10), (''sag'', 11), (''lk'', 12), (''weather'', 13),
      (''beta'', 14), (''w'', 15), (''k'', 16), (''c1'', 17), (''c2'', 18), (''req'', 19),
      (''cur'', 20), (''ok'', 21)]"

text \<open>\<open>ws.cell(r, col, value)\<close>\<close>

definition ws_cell :: "worksheet \<Rightarrow> nat \<Rightarrow> nat \<Rightarrow> val \<Rightarrow> worksheet" where
  "ws_cell ws r col v =
     \<lparr>max_row = max (max_row ws) r, cell_values = AList.update (r, col) v (cell_values ws)\<rparr>"

text \<open>The local function \<open>put\<close>: a key that the column map lacks writes nothing.\<close>

definition put :: "(string \<times> nat) list \<Rightarrow> nat \<Rightarrow> worksheet \<Rightarrow> string \<times> val \<Rightarrow> worksheet" where
  "put COL r ws kv =
     (case map_of COL (fst kv) of
        None \<Rightarrow> ws
      | Some col \<Rightarrow> if col \<noteq> 0 then ws_cell ws r col (snd kv) else ws)"

text \<open>
  \<open>pd.DataFrame(ws.values)\<close> with the first row made the header: the cells of the
  worksheet, in columns of dtype object.
\<close>

definition read_sheet :: "frame \<Rightarrow> frame" where
  "read_sheet ws = ws\<lparr>sheet_dtype := Object\<rparr>"

text \<open>The state of the loop over the sheets of one workbook.\<close>

record run =
  res_wb :: results_workbook
  next_row :: "(string \<times> nat) list"
  wb :: source_workbook

text \<open>The values that one summary row holds, in the order of the \<open>put\<close> calls.\<close>

definition summary_puts ::
    "bool \<Rightarrow> string \<Rightarrow> string \<Rightarrow> int \<Rightarrow> int \<Rightarrow> int \<Rightarrow> int \<Rightarrow> summary \<Rightarrow> (string \<times> val) list" where
  "summary_puts ew_span start_span end_span d1 d2 d3 d4 summ =
     [(''row'', VInt (int (s_row_num summ))), (''src_start'', VStr start_span),
      (''src_end'', VStr end_span), (''src_set'', VInt d1), (''src_phase'', VInt d2),
      (''tgt_start'', VStr start_span), (''tgt_end'', VStr end_span), (''tgt_set'', VInt d3),
      (''tgt_phase'', VInt d4), (''station'', VNum (s_station summ)),
      (''req'', VNum (s_req summ)), (''cur'', VNum (s_cur summ)),
      (''ok'', VStr (s_ok_flag summ)), (''c1'', VNum (s_c1 summ))]
     @ (if ew_span then [(''c3'', VNum (s_c2 summ))]
        else [(''sag'', VNum (s_sag summ)), (''lk'', VNum (s_lk summ)),
              (''beta'', VNum (s_beta summ)), (''k'', VNum (s_k_factor summ)),
              (''c2'', VNum (s_c2 summ)), (''weather'', VInt 10), (''w'', VStr '''')])"

text \<open>
  The body of the loop of \<open>process_workbook\<close>: a sheet whose name does not parse, and a
  sheet on which \<open>process_sheet\<close> raises, leave the state as it is.
\<close>

definition sheet_step :: "string \<Rightarrow> string \<Rightarrow> string \<Rightarrow> run \<Rightarrow> run" where
  "sheet_step start_span end_span sheet_name st =
     (case parse_sheet_name sheet_name of
        Inl _ \<Rightarrow> st
      | Inr (d1, d2, d3, d4) \<Rightarrow>
          (let cir1 = which_circuit d1; cir3 = which_circuit d3;
               ew_span = (0 \<in> {cir1, cir3})
           in case map_of (wb st) sheet_name of
                None \<Rightarrow> st
              | Some ws \<Rightarrow>
                  (case process_sheet_copy (read_sheet ws) d1 d2 d3 d4 of
                     Inl _ \<Rightarrow> st
                   | Inr (df, summ) \<Rightarrow>
                       (let tgt = (if ew_span then PH_EW_SHEET else PH_PH_SHEET);
                            COL = (if ew_span then COL_PH_EW else COL_PH_PH)
                        in case (map_of (res_wb st) tgt, map_of (next_row st) tgt) of
                             (Some tgt_ws, Some r) \<Rightarrow>
                               st\<lparr>res_wb := AList.update tgt
                                      (foldl (put COL r) tgt_ws
                                         (summary_puts ew_span start_span end_span d1 d2 d3 d4
                                            summ))
                                      (res_wb st),
                                    next_row := AList.update tgt (r + 1) (next_row st),
                                    wb := AList.update sheet_name df (wb st)\<rparr>
                           | _ \<Rightarrow> st))))"

text \<open>\<open>os.path.splitext(p)[0]\<close> for a path whose last dot is in its file name.\<close>

definition splitext_root :: "string \<Rightarrow> string" where
  "splitext_root p = rev (tl (dropWhile (\<lambda>c. c \<noteq> CHR ''.'') (rev p)))"

text \<open>
  \<open>process_workbook\<close>: the metadata of the file name, the results workbook, then the
  sheets; the processed workbook and the results workbook are saved at the end.
\<close>

definition process_workbook :: "filesystem \<Rightarrow> string \<Rightarrow> error + filesystem" where
  "process_workbook fs xl_path =
     bind (load_metadata xl_path) (\<lambda>(start_span, end_suffix).
     let end_span = take (length start_span - 3) start_span @ end_suffix in
     bind (open_results_wb fs) (\<lambda>res.
     let nxt = map (\<lambda>(name, ws). (name, max_row ws + 1))
                 (filter (\<lambda>(name, ws). name \<in> {PH_PH_SHEET, PH_EW_SHEET}) res) in
     case map_of (files fs) xl_path of
       None \<Rightarrow> Inl FileNotFoundError
     | Some book \<Rightarrow>
         (let st = foldl (\<lambda>st name. sheet_step start_span end_span name st)
                     \<lparr>res_wb = res, next_row = nxt, wb = book\<rparr> (map fst book);
              proc_path = splitext_root xl_path @ ''_processed.xlsx''
          in Inr (fs\<lparr>results := Some (res_wb st),
                      files := AList.update proc_path (wb st) (files fs)\<rparr>))))"

text \<open>What \<open>main\<close> prints for one file.\<close>

datatype report = Written string | Failed string error | NoMatchingFiles

text \<open>
  \<open>main\<close> on the list of files the glob pattern gives: an exception of
  \<open>process_workbook\<close> is caught and printed, and the loop goes on with the next file.
\<close>

definition main_step :: "filesystem \<times> report list \<Rightarrow> string \<Rightarrow> filesystem \<times> report list" where
  "main_step acc fp =
     (case process_workbook (fst acc) fp of
        Inl exc \<Rightarrow> (fst acc, snd acc @ [Failed fp exc])
      | Inr fs \<Rightarrow> (fs, snd acc @ [Written (splitext_root fp @ ''_processed.xlsx'')]))"

definition main :: "filesystem \<Rightarrow> string list \<Rightarrow> filesystem \<times> report list" where
  "main fs file_list =
     (if file_list = [] then (fs, [NoMatchingFiles])
      else foldl main_step (fs, []) file_list)"

section \<open>wind\_calculations\_new.py\<close>

text \<open>\<open>(.+?_W\d+)_([0-9\-]+_W\d+)\<close>\<close>

definition swap_pattern :: "item list" where
  "swap_pattern =
     [Rep Lazy 1 Any] @ lit ''_W'' @ [Rep Greedy 1 Digit] @ lit ''_''
     @ [Rep Greedy 1 DigitHyphen] @ lit ''_W'' @ [Rep Greedy 1 Digit]"

definition swap_sheet_name :: "string \<Rightarrow> string" where
  "swap_sheet_name sheet_name =
     (case re_match swap_pattern sheet_name of
        Some ps \<Rightarrow> group ps 5 9 @ ''_'' @ group ps 0 4
      | None \<Rightarrow> sheet_name)"

definition C_GROUP_1 :: "string set" where
  "C_GROUP_1 = {''41'', ''42'', ''43''}"

definition C_GROUP_2 :: "string set" where
  "C_GROUP_2 = {''44'', ''45'', ''46''}"

text \<open>\<open>(\d{2})-\d{2}.*_W\d+_(\d{2})-\d{2}\<close>; its groups are the items 0, 1 and 10, 11.\<close>

definition codes_pattern :: "item list" where
  "codes_pattern =
     [One Digit, One Digit] @ lit ''-'' @ [One Digit, One Digit, Rep Greedy 0 Any]
     @ lit ''_W'' @ [Rep Greedy 1 Digit] @ lit ''_'' @ [One Digit, One Digit] @ lit ''-''
     @ [One Digit, One Digit]"

text \<open>\<open>59-39_W\d+_(\d{2})-\d{2}_W\d+\<close>; its group is the items 9, 10.\<close>

definition ew_codes_pattern :: "item list" where
  "ew_codes_pattern =
     lit ''59-39_W'' @ [Rep Greedy 1 Digit] @ lit ''_'' @ [One Digit, One Digit] @ lit ''-''
     @ [One Digit, One Digit] @ lit ''_W'' @ [Rep Greedy 1 Digit]"

text \<open>
  The two codes \<open>d1\<close>, \<open>d3\<close> that \<open>add_distance_columns\<close> reads in the sheet name, None
  where it raises the ValueError.
\<close>

definition wind_codes :: "string \<Rightarrow> (string \<times> string) option" where
  "wind_codes sheet_name =
     (case re_search codes_pattern sheet_name of
        Some m \<Rightarrow> Some (group m 0 2, group m 10 12)
      | None \<Rightarrow>
          (case re_match ew_codes_pattern sheet_name of
             None \<Rightarrow> None
           | Some m2 \<Rightarrow> Some (group m2 9 11, group m2 9 11)))"

definition same_circuit :: "string \<Rightarrow> string \<Rightarrow> bool" where
  "same_circuit d1 d3 \<longleftrightarrow>
     (d1 \<in> C_GROUP_1 \<and> d3 \<in> C_GROUP_1) \<or> (d1 \<in> C_GROUP_2 \<and> d3 \<in> C_GROUP_2)"

definition add_distance_columns :: "frame \<Rightarrow> string \<Rightarrow> error + frame" where
  "add_distance_columns df sheet_name =
     (case wind_codes sheet_name of
        None \<Rightarrow> Inl ValueError
      | Some (d1, d3) \<Rightarrow>
          (let df = setscalar df ''C3'' (if same_circuit d1 d3 then Num 1.35 else Num 0);
               df = setscalar df ''C4'' (if same_circuit d1 d3 then Num 0 else Num 1.60)
           in bind (getitem df ''C3'') (\<lambda>c3.
              bind (getitem df ''C4'') (\<lambda>c4.
              Inr (setitem df ''Required distance'' (map2 row_max c3 c4))))))"

section \<open>Notions of the claims\<close>

text \<open>The columns that \<open>process_sheet\<close> adds.\<close>

definition derived_cols :: "string set" where
  "derived_cols = {''sag'', ''K'', ''LK'', ''C1'', ''C2'', ''required-distance'', ''diff'',
     ''worst-case''}"

text \<open>The constants C1 and C2 of a sheet, by the circuits of d1 and d3.\<close>

definition C1_of :: "int \<Rightarrow> int \<Rightarrow> cell" where
  "C1_of d1 d3 =
     (if which_circuit d1 \<noteq> EARTH_WIRE \<and> which_circuit d3 \<noteq> EARTH_WIRE
         \<and> which_circuit d1 \<noteq> which_circuit d3 then Num 0.0 else Num 1.93)"

definition C2_of :: "int \<Rightarrow> int \<Rightarrow> cell" where
  "C2_of d1 d3 =
     (if which_circuit d1 \<noteq> EARTH_WIRE \<and> which_circuit d3 \<noteq> EARTH_WIRE
         \<and> which_circuit d1 \<noteq> which_circuit d3 then Num 2.29 else Num 0.0)"

text \<open>The required-distance column, from the input columns.\<close>

definition required_of :: "int \<Rightarrow> int \<Rightarrow> nat \<Rightarrow> series \<Rightarrow> series \<Rightarrow> series \<Rightarrow> series" where
  "required_of d1 d3 n sd12 sd34 bt =
     (if which_circuit d1 = EARTH_WIRE \<or> which_circuit d3 = EARTH_WIRE
      then replicate n (Num 1.93)
      else map5 formula (map K_of bt) (map2 row_max sd12 sd34) (replicate n (Num 2))
             (replicate n (C1_of d1 d3)) (replicate n (C2_of d1 d3)))"

text \<open>
  The frame after steps 2-3 to 2-5 and after step 2-6, for the input columns \<open>sd12\<close>,
  \<open>sd34\<close> and \<open>bt\<close> (beta angle).
\<close>

definition with_sag_K_LK :: "frame \<Rightarrow> series \<Rightarrow> series \<Rightarrow> series \<Rightarrow> frame" where
  "with_sag_K_LK df sd12 sd34 bt =
     setscalar (setitem (setitem df ''sag'' (map2 row_max sd12 sd34)) ''K'' (map K_of bt))
       ''LK'' (Num 2)"

definition with_required ::
    "frame \<Rightarrow> int \<Rightarrow> int \<Rightarrow> series \<Rightarrow> series \<Rightarrow> series \<Rightarrow> frame" where
  "with_required df d1 d3 sd12 sd34 bt =
     setitem (setscalar (setscalar (with_sag_K_LK df sd12 sd34 bt) ''C1'' (C1_of d1 d3))
                ''C2'' (C2_of d1 d3))
       ''required-distance'' (required_of d1 d3 (nrows df) sd12 sd34 bt)"

text \<open>
  calculations.py takes the square root of an object series: the sheet is of two real
  circuits, its columns are of dtype object, and it has a row.
\<close>

definition sqrt_of_objects :: "frame \<Rightarrow> int \<Rightarrow> int \<Rightarrow> series \<Rightarrow> series \<Rightarrow> bool" where
  "sqrt_of_objects df d1 d3 sd12 sd34 \<longleftrightarrow>
     which_circuit d1 \<noteq> EARTH_WIRE \<and> which_circuit d3 \<noteq> EARTH_WIRE
     \<and> sqrt_raises (sheet_dtype df)
           (map2 cell_add (map2 row_max sd12 sd34) (replicate (nrows df) (Num 2)))"

text \<open>
  The frame with the eight columns set, for the input columns \<open>sd12\<close>, \<open>sd34\<close>, \<open>bt\<close>
  (beta angle) and \<open>cur\<close> (measured distance) and the worst-case row \<open>k\<close>.
\<close>

definition augmented ::
    "frame \<Rightarrow> int \<Rightarrow> int \<Rightarrow> series \<Rightarrow> series \<Rightarrow> series \<Rightarrow> series \<Rightarrow> nat \<Rightarrow> frame" where
  "augmented df d1 d3 sd12 sd34 bt cur k =
     (let req = required_of d1 d3 (nrows df) sd12 sd34 bt;
          diff = map2 cell_sub cur req;
          df = setitem df ''sag'' (map2 row_max sd12 sd34);
          df = setitem df ''K'' (map K_of bt);
          df = setitem df ''LK'' (replicate (nrows df) (Num 2));
          df = setitem df ''C1'' (replicate (nrows df) (C1_of d1 d3));
          df = setitem df ''C2'' (replicate (nrows df) (C2_of d1 d3));
          df = setitem df ''required-distance'' req;
          df = setitem df ''diff'' diff
      in setitem df ''worst-case'' ((replicate (nrows df) NaN)[k := diff ! k]))"

text \<open>Row \<open>k\<close> holds the least value of the series, and is the first row that does.\<close>

definition is_worst_row :: "series \<Rightarrow> nat \<Rightarrow> bool" where
  "is_worst_row diff k \<longleftrightarrow>
     k < length diff \<and>
     (\<exists>v. diff ! k = Num v
        \<and> (\<forall>j<length diff. \<forall>w. diff ! j = Num w \<longrightarrow> v \<le> w)
        \<and> (\<forall>j<k. \<forall>w. diff ! j = Num w \<longrightarrow> v < w))"

text \<open>The summary holds the values of row \<open>k\<close> of the frame.\<close>

definition summary_of_row :: "frame \<Rightarrow> nat \<Rightarrow> summary \<Rightarrow> bool" where
  "summary_of_row df k summ \<longleftrightarrow>
     s_row_num summ = k + 2 \<and>
     loc df k ''Station'' = Inr (s_station summ) \<and>
     loc df k ''sag'' = Inr (s_sag summ) \<and>
     loc df k ''LK'' = Inr (s_lk summ) \<and>
     loc df k beta_col = Inr (s_beta summ) \<and>
     loc df k ''K'' = Inr (s_k_factor summ) \<and>
     loc df k ''C1'' = Inr (s_c1 summ) \<and>
     loc df k ''C2'' = Inr (s_c2 summ) \<and>
     loc df k ''required-distance'' = Inr (s_req summ) \<and>
     loc df k dist_col = Inr (s_cur summ)"

text \<open>
  One cell of the sheet that \<open>process_sheet\<close> returns, in calculations.py and in
  calculations-copy.py.
\<close>

definition processed_cell ::
    "frame \<Rightarrow> int \<Rightarrow> int \<Rightarrow> int \<Rightarrow> int \<Rightarrow> nat \<Rightarrow> string \<Rightarrow> error + cell" where
  "processed_cell df d1 d2 d3 d4 i c =
     bind (process_sheet df d1 d2 d3 d4) (\<lambda>df'. loc df' i c)"

definition processed_cell_copy ::
    "frame \<Rightarrow> int \<Rightarrow> int \<Rightarrow> int \<Rightarrow> int \<Rightarrow> nat \<Rightarrow> string \<Rightarrow> error + cell" where
  "processed_cell_copy df d1 d2 d3 d4 i c =
     bind (process_sheet_copy df d1 d2 d3 d4) (\<lambda>(df', summ). loc df' i c)"

text \<open>
  The names of the wind sheets as the specification writes them,
  \<open><a>_W<p1>_<b>_W<p2>\<close>: \<open>a\<close> and \<open>b\<close> of digits and hyphens, \<open>p1\<close> and \<open>p2\<close> of digits.
\<close>

definition digits_hyphens :: "string \<Rightarrow> bool" where
  "digits_hyphens s \<longleftrightarrow> s \<noteq> [] \<and> (\<forall>c\<in>set s. in_cls DigitHyphen c)"

definition digit_string :: "string \<Rightarrow> bool" where
  "digit_string s \<longleftrightarrow> s \<noteq> [] \<and> (\<forall>c\<in>set s. is_digit c)"

definition wind_name :: "string \<Rightarrow> string \<Rightarrow> string \<Rightarrow> string \<Rightarrow> string" where
  "wind_name a p1 b p2 = a @ ''_W'' @ p1 @ ''_'' @ b @ ''_W'' @ p2"

definition wind_grammar :: "string \<Rightarrow> bool" where
  "wind_grammar s \<longleftrightarrow>
     (\<exists>a p1 b p2. digits_hyphens a \<and> digit_string p1 \<and> digits_hyphens b \<and> digit_string p2
        \<and> s = wind_name a p1 b p2)"

text \<open>The precondition of the summary path fails, and the exception it raises.\<close>

definition templates_missing :: "filesystem \<Rightarrow> bool" where
  "templates_missing fs \<longleftrightarrow>
     (case results fs of
        None \<Rightarrow> True
      | Some book \<Rightarrow>
          PH_PH_SHEET \<notin> set (map fst book) \<or> PH_EW_SHEET \<notin> set (map fst book))"

definition precondition_error :: "filesystem \<Rightarrow> error" where
  "precondition_error fs = (if results fs = None then FileNotFoundError else KeyError)"

text \<open>What a file is reported with when the precondition fails.\<close>

definition failure_of :: "filesystem \<Rightarrow> string \<Rightarrow> error" where
  "failure_of fs fp =
     (case load_metadata fp of Inl e \<Rightarrow> e | Inr _ \<Rightarrow> precondition_error fs)"

section \<open>Example sheets and folders\<close>

text \<open>
  A phase to earth-wire sheet \<open>59-39_41-21\<close> with a missing sag and a missing beta angle,
  as \<open>process_workbook\<close> reads it: its columns are of dtype object.
\<close>

definition ew_sheet :: frame where
  "ew_sheet = \<lparr>nrows = 2, sheet_dtype = Object, columns =
     [(''Station'', [Num 100, Num 200]),
      (''Sag of 59-39'', [Num 1, NaN]),
      (''Straight Distance of 41-21'', [Num 2, Num 3]),
      (beta_col, [Num 0, NaN]),
      (dist_col, [Num 5, Num 4])]\<rparr>"

definition ew_sheet_out :: frame where
  "ew_sheet_out = \<lparr>nrows = 2, sheet_dtype = Object, columns =
     [(''Station'', [Num 100, Num 200]),
      (''Sag of 59-39'', [Num 1, NaN]),
      (''Straight Distance of 41-21'', [Num 2, Num 3]),
      (beta_col, [Num 0, NaN]),
      (dist_col, [Num 5, Num 4]),
      (''sag'', [Num 2, Num 3]),
      (''K'', [Num 0.75, NaN]),
      (''LK'', [Num 2, Num 2]),
      (''C1'', [Num 1.93, Num 1.93]),
      (''C2'', [Num 0, Num 0]),
      (''required-distance'', [Num 1.93, Num 1.93]),
      (''diff'', [Num 3.07, Num 2.07]),
      (''worst-case'', [NaN, Num 2.07])]\<rparr>"

definition ew_summary :: summary where
  "ew_summary = \<lparr>s_row_num = 3, s_station = Num 200, s_sag = Num 3, s_lk = Num 2,
     s_beta = NaN, s_k_factor = NaN, s_c1 = Num 1.93, s_c2 = Num 0,
     s_req = Num 1.93, s_cur = Num 4, s_ok_flag = ''ok''\<rparr>"

text \<open>
  A phase to phase sheet \<open>41-42_43-44\<close> on one circuit, with float64 columns; its last
  row lacks values.
\<close>

definition ph_sheet :: frame where
  "ph_sheet = \<lparr>nrows = 3, sheet_dtype = Float64, columns =
     [(''Station'', [Num 100, Num 200, Num 300]),
      (''Sag of 41-42'', [Num 2, Num 7, NaN]),
      (''Straight Distance of 43-44'', [Num 1, Num 14, Num 7]),
      (beta_col, [Num 0, Num 90, NaN]),
      (dist_col, [Num 5, Num 4, Num 1])]\<rparr>"

definition ph_sheet_out :: frame where
  "ph_sheet_out = \<lparr>nrows = 3, sheet_dtype = Float64, columns =
     [(''Station'', [Num 100, Num 200, Num 300]),
      (''Sag of 41-42'', [Num 2, Num 7, NaN]),
      (''Straight Distance of 43-44'', [Num 1, Num 14, Num 7]),
      (beta_col, [Num 0, Num 90, NaN]),
      (dist_col, [Num 5, Num 4, Num 1]),
      (''sag'', [Num 2, Num 14, Num 7]),
      (''K'', [Num 0.75, Num 0.65, NaN]),
      (''LK'', [Num 2, Num 2, Num 2]),
      (''C1'', [Num 1.93, Num 1.93, Num 1.93]),
      (''C2'', [Num 0, Num 0, Num 0]),
      (''required-distance'', [Num 3.43, Num 4.53, NaN]),
      (''diff'', [Num 1.57, Num (- 0.53), NaN]),
      (''worst-case'', [NaN, Num (- 0.53), NaN])]\<rparr>"

definition ph_summary :: summary where
  "ph_summary = \<lparr>s_row_num = 3, s_station = Num 200, s_sag = Num 14, s_lk = Num 2,
     s_beta = Num 90, s_k_factor = Num 0.65, s_c1 = Num 1.93, s_c2 = Num 0,
     s_req = Num 4.53, s_cur = Num 4, s_ok_flag = ''not ok''\<rparr>"

text \<open>A phase to earth-wire sheet \<open>59-39_41-21\<close> that has no beta angle column.\<close>

definition ew_sheet_no_beta :: frame where
  "ew_sheet_no_beta = \<lparr>nrows = 2, sheet_dtype = Object, columns =
     [(''Station'', [Num 100, Num 200]),
      (''Sag of 59-39'', [Num 1, Num 2]),
      (''Straight Distance of 41-21'', [Num 2, Num 3]),
      (dist_col, [Num 5, Num 4])]\<rparr>"

text \<open>The state of the sheet loop on a workbook that holds this sheet alone.\<close>

definition no_beta_run :: run where
  "no_beta_run = \<lparr>res_wb = [(PH_PH_SHEET, \<lparr>max_row = 1, cell_values = []\<rparr>),
                           (PH_EW_SHEET, \<lparr>max_row = 1, cell_values = []\<rparr>)],
     next_row = [(PH_PH_SHEET, 2), (PH_EW_SHEET, 2)],
     wb = [(''59-39_41-21'', ew_sheet_no_beta)]\<rparr>"

text \<open>
  A phase to phase sheet \<open>41-42_43-44\<close>: the first row lacks one of its two sag values,
  the second its beta angle, the third is complete.  The sheet as \<open>process_workbook\<close>
  reads it, with object columns, and the same sheet with float64 columns.
\<close>

definition gap_sheet :: frame where
  "gap_sheet = \<lparr>nrows = 3, sheet_dtype = Object, columns =
     [(''Station'', [Num 100, Num 200, Num 300]),
      (''Sag of 41-42'', [NaN, Num 2, Num 7]),
      (''Sag of 43-44'', [Num 2, Num 1, Num 14]),
      (beta_col, [Num 0, NaN, Num 90]),
      (dist_col, [Num 5, Num 5, Num 4])]\<rparr>"

definition gap_sheet_float :: frame where
  "gap_sheet_float = gap_sheet\<lparr>sheet_dtype := Float64\<rparr>"

text \<open>A wind sheet with two rows.\<close>

definition wind_sheet :: frame where
  "wind_sheet = \<lparr>nrows = 2, sheet_dtype = Float64, columns =
     [(''Station'', [Num 10, Num 20]),
      (''Sag of ???'', [Num 1, NaN]),
      (''Distance Between Powerlines'', [Num 3, Num 2])]\<rparr>"

text \<open>A folder of three files, the second with a name outside the pattern, and no results workbook.\<close>

definition no_results :: filesystem where
  "no_results = \<lparr>results = None, files =
     [(''in/Cond_10C_TR1730a001_002.xlsx'', [(''41-42_43-44'', ph_sheet)]),
      (''in/Cond_10C_notes.xlsx'', []),
      (''in/Cond_10C_TR1730a002_003.xlsx'', [(''59-39_41-21'', ew_sheet)])]\<rparr>"

text \<open>The same folder with a results workbook that lacks the earth-wire sheet.\<close>

definition no_ew_template :: filesystem where
  "no_ew_template = no_results\<lparr>results :=
     Some [(PH_PH_SHEET, \<lparr>max_row = 1, cell_values = []\<rparr>)]\<rparr>"

text \<open>The same folder with a results workbook that holds both template sheets.\<close>

definition with_results :: filesystem where
  "with_results = no_results\<lparr>results :=
     Some [(PH_PH_SHEET, \<lparr>max_row = 1, cell_values = []\<rparr>),
           (PH_EW_SHEET, \<lparr>max_row = 4, cell_values = []\<rparr>)]\<rparr>"

section \<open>Basic facts\<close>

lemma bind_Inl [simp]: "bind (Inl e) k = Inl e"
  by (simp add: bind_def)

lemma bind_Inr [simp]: "bind (Inr x) k = k x"
  by (simp add: bind_def)

lemma bind_eq_Inr: "bind m k = Inr y \<longleftrightarrow> (\<exists>x. m = Inr x \<and> k x = Inr y)"
  by (cases m) auto

lemma getitem_setitem [simp]:
  "getitem (setitem df c xs) c' = (if c' = c then Inr xs else getitem df c')"
  by (simp add: getitem_def setitem_def update_conv')

lemma nrows_setitem [simp]: "nrows (setitem df c xs) = nrows df"
  by (simp add: setitem_def)

lemma getitem_setscalar [simp]:
  "getitem (setscalar df c x) c' =
     (if c' = c then Inr (replicate (nrows df) x) else getitem df c')"
  by (simp add: setscalar_def)

lemma nrows_setscalar [simp]: "nrows (setscalar df c x) = nrows df"
  by (simp add: setscalar_def)

lemma sheet_dtype_setitem [simp]: "sheet_dtype (setitem df c xs) = sheet_dtype df"
  by (simp add: setitem_def)

lemma sheet_dtype_setscalar [simp]: "sheet_dtype (setscalar df c x) = sheet_dtype df"
  by (simp add: setscalar_def)

lemma getitem_read_sheet [simp]: "getitem (read_sheet df) c = getitem df c"
  by (simp add: getitem_def read_sheet_def)

lemma has_col_read_sheet [simp]: "has_col (read_sheet df) c = has_col df c"
  by (simp add: has_col_def read_sheet_def)

lemma replicate_numeral: "replicate (numeral k) x = x # replicate (pred_numeral k) x"
  by (simp add: numeral_eq_Suc)

text \<open>The equations that evaluate the model on a concrete sheet.\<close>

lemmas eval_defs = candidates_def str_int_def digits_of.simps process_sheet_def
  add_sag_K_LK_def add_required_def add_diff_def add_worst_case_def getitem_def setitem_def
  setscalar_def pick_distance_col_def has_col_def beta_col_def dist_col_def which_circuit_def
  CIRCUIT_1_def CIRCUIT_2_def EARTH_WIRE_def set_required_formula_def formula_def idxmin_def
  loc_def set_loc_def process_sheet_copy_def add_required_copy_def make_summary_def
  first_valid_index_def cols_to_float_def K_of_def sqrt_raises_def read_sheet_def
  replicate_numeral Let_def

lemma ew_sheet_run: "process_sheet ew_sheet 59 39 41 21 = Inr ew_sheet_out"
  by (simp add: ew_sheet_def ew_sheet_out_def eval_defs)

subsection \<open>The position \<open>idxmin\<close> returns\<close>

lemma idxmin_scan_None:
  "idxmin_scan xs i best = None \<longleftrightarrow> best = None \<and> (\<forall>x\<in>set xs. x = NaN)"
  by (induction xs i best rule: idxmin_scan.induct) (auto split: option.splits)

lemma idxmin_scan_Some:
  "idxmin_scan xs i best = Some (k, v) \<Longrightarrow>
     (best = Some (k, v) \<and> (\<forall>j<length xs. \<forall>w. xs ! j = Num w \<longrightarrow> v \<le> w)) \<or>
     (\<exists>j<length xs. k = i + j \<and> xs ! j = Num v
        \<and> (\<forall>j'<j. \<forall>w. xs ! j' = Num w \<longrightarrow> v < w)
        \<and> (\<forall>j'<length xs. \<forall>w. xs ! j' = Num w \<longrightarrow> v \<le> w)
        \<and> (\<forall>j0 w0. best = Some (j0, w0) \<longrightarrow> v < w0))"
proof (induction xs i best rule: idxmin_scan.induct)
  case (1 i best)
  then show ?case by simp
next
  case (2 xs i best)
  from 2 have "idxmin_scan xs (Suc i) best = Some (k, v)" by simp
  from "2.IH"[OF this] show ?case
  proof
    assume a: "best = Some (k, v) \<and> (\<forall>j<length xs. \<forall>w. xs ! j = Num w \<longrightarrow> v \<le> w)"
    have "\<forall>j<length (NaN # xs). \<forall>w. (NaN # xs) ! j = Num w \<longrightarrow> v \<le> w"
      using a by (auto simp: nth_Cons split: nat.splits)
    with a show ?thesis by blast
  next
    assume "\<exists>j<length xs. k = Suc i + j \<and> xs ! j = Num v
        \<and> (\<forall>j'<j. \<forall>w. xs ! j' = Num w \<longrightarrow> v < w)
        \<and> (\<forall>j'<length xs. \<forall>w. xs ! j' = Num w \<longrightarrow> v \<le> w)
        \<and> (\<forall>j0 w0. best = Some (j0, w0) \<longrightarrow> v < w0)"
    then obtain j where j: "j < length xs" "k = Suc i + j" "xs ! j = Num v"
        "\<forall>j'<j. \<forall>w. xs ! j' = Num w \<longrightarrow> v < w"
        "\<forall>j'<length xs. \<forall>w. xs ! j' = Num w \<longrightarrow> v \<le> w"
        "\<forall>j0 w0. best = Some (j0, w0) \<longrightarrow> v < w0" by blast
    have "Suc j < length (NaN # xs)" "k = i + Suc j" "(NaN # xs) ! Suc j = Num v"
      using j by simp_all
    moreover have "\<forall>j'<Suc j. \<forall>w. (NaN # xs) ! j' = Num w \<longrightarrow> v < w"
      using j(4) by (auto simp: nth_Cons split: nat.splits)
    moreover have "\<forall>j'<length (NaN # xs). \<forall>w. (NaN # xs) ! j' = Num w \<longrightarrow> v \<le> w"
      using j(5) by (auto simp: nth_Cons split: nat.splits)
    ultimately show ?thesis using j(6) by blast
  qed
next
  case (3 u xs i best)
  define best' where "best' = (case best of None \<Rightarrow> Some (i, u)
        | Some (j, w) \<Rightarrow> if u < w then Some (i, u) else Some (j, w))"
  from 3 have run: "idxmin_scan xs (Suc i) best' = Some (k, v)" by (simp add: best'_def)
  have le: "\<And>j w. best' = Some (j, w) \<Longrightarrow> w \<le> u"
    by (auto simp: best'_def split: option.splits if_splits)
  have lt: "\<And>j w j0 w0. best' = Some (j, w) \<Longrightarrow> best = Some (j0, w0) \<Longrightarrow> w \<le> w0"
    by (auto simp: best'_def split: option.splits if_splits)
  from "3.IH"[folded best'_def, OF run] show ?case
  proof
    assume a: "best' = Some (k, v) \<and> (\<forall>j<length xs. \<forall>w. xs ! j = Num w \<longrightarrow> v \<le> w)"
    then have vu: "v \<le> u" using le by blast
    have all: "\<forall>j<length (Num u # xs). \<forall>w. (Num u # xs) ! j = Num w \<longrightarrow> v \<le> w"
      using a vu by (auto simp: nth_Cons split: nat.splits)
    show ?thesis
    proof (cases "best = Some (k, v)")
      case True
      with all show ?thesis by blast
    next
      case False
      with a have new: "k = i" "v = u" "\<forall>j0 w0. best = Some (j0, w0) \<longrightarrow> v < w0"
        by (auto simp: best'_def split: option.splits if_splits)
      have "0 < length (Num u # xs)" "k = i + 0" "(Num u # xs) ! 0 = Num v"
        using new by simp_all
      with all new(3) show ?thesis by (intro disjI2 exI[of _ 0]) simp
    qed
  next
    assume "\<exists>j<length xs. k = Suc i + j \<and> xs ! j = Num v
        \<and> (\<forall>j'<j. \<forall>w. xs ! j' = Num w \<longrightarrow> v < w)
        \<and> (\<forall>j'<length xs. \<forall>w. xs ! j' = Num w \<longrightarrow> v \<le> w)
        \<and> (\<forall>j0 w0. best' = Some (j0, w0) \<longrightarrow> v < w0)"
    then obtain j where j: "j < length xs" "k = Suc i + j" "xs ! j = Num v"
        "\<forall>j'<j. \<forall>w. xs ! j' = Num w \<longrightarrow> v < w"
        "\<forall>j'<length xs. \<forall>w. xs ! j' = Num w \<longrightarrow> v \<le> w"
        "\<forall>j0 w0. best' = Some (j0, w0) \<longrightarrow> v < w0" by blast
    have "best' \<noteq> None"
      by (simp add: best'_def split: option.splits)
    then obtain jb wb where b': "best' = Some (jb, wb)"
      by (cases best') auto
    with j(6) le have vu: "v < u" by fastforce
    have "Suc j < length (Num u # xs)" "k = i + Suc j" "(Num u # xs) ! Suc j = Num v"
      using j by simp_all
    moreover have "\<forall>j'<Suc j. \<forall>w. (Num u # xs) ! j' = Num w \<longrightarrow> v < w"
      using j(4) vu by (auto simp: nth_Cons split: nat.splits)
    moreover have "\<forall>j'<length (Num u # xs). \<forall>w. (Num u # xs) ! j' = Num w \<longrightarrow> v \<le> w"
      using j(5) vu by (auto simp: nth_Cons split: nat.splits)
    moreover have "\<forall>j0 w0. best = Some (j0, w0) \<longrightarrow> v < w0"
      using j(6) b' lt by fastforce
    ultimately show ?thesis by blast
  qed
qed

lemma idxmin_Inr:
  assumes "idxmin xs = Inr k"
  shows "k < length xs \<and> (\<exists>v. xs ! k = Num v
        \<and> (\<forall>j<k. \<forall>w. xs ! j = Num w \<longrightarrow> v < w)
        \<and> (\<forall>j<length xs. \<forall>w. xs ! j = Num w \<longrightarrow> v \<le> w))"
proof -
  from assms obtain v where "idxmin_scan xs 0 None = Some (k, v)"
    by (auto simp: idxmin_def split: option.splits)
  from idxmin_scan_Some[OF this] show ?thesis by auto
qed

lemma idxmin_Inl: "idxmin xs = Inl e \<longleftrightarrow> e = ValueError \<and> (\<forall>x\<in>set xs. x = NaN)"
  using idxmin_scan_None[of xs 0 None]
  by (cases "idxmin_scan xs 0 None") (auto simp: idxmin_def)

subsection \<open>The stages of \<open>process_sheet\<close>\<close>

lemma add_sag_K_LK_Inr:
  assumes "add_sag_K_LK df d1 d2 d3 d4 = Inr df1"
  obtains c12 c34 sd12 sd34 bt where
    "pick_distance_col df d1 d2 = Inr c12" "pick_distance_col df d3 d4 = Inr c34"
    "getitem df c12 = Inr sd12" "getitem df c34 = Inr sd34"
    "getitem df beta_col = Inr bt"
    "df1 = with_sag_K_LK df sd12 sd34 bt"
  using assms
  by (auto simp: add_sag_K_LK_def with_sag_K_LK_def bind_eq_Inr Let_def beta_col_def)

lemma add_diff_Inr:
  assumes "add_diff df = Inr df3"
  obtains cur req where
    "getitem df dist_col = Inr cur" "getitem df ''required-distance'' = Inr req"
    "df3 = setitem df ''diff'' (map2 cell_sub cur req)"
  using assms by (auto simp: add_diff_def bind_eq_Inr)

lemma setitem_setitem [simp]: "setitem (setitem df c xs) c ys = setitem df c ys"
  by (simp add: setitem_def)

lemma getitem_Inl: "getitem df c = Inl e \<longleftrightarrow> e = KeyError \<and> \<not> has_col df c"
proof -
  have "map_of (columns df) c = None \<longleftrightarrow> c \<notin> fst ` set (columns df)"
    by (rule map_of_eq_None_iff)
  then show ?thesis
    by (cases "map_of (columns df) c") (auto simp: getitem_def has_col_def)
qed

lemma has_col_getitem: "has_col df c \<longleftrightarrow> (\<exists>xs. getitem df c = Inr xs)"
  using getitem_Inl[of df c] by (cases "getitem df c") auto

lemma getitem_absent: "\<not> has_col df c \<Longrightarrow> getitem df c = Inl KeyError"
  by (simp add: getitem_Inl)

lemma has_col_setitem [simp]: "has_col (setitem df c xs) c' \<longleftrightarrow> c' = c \<or> has_col df c'"
  by (simp add: has_col_getitem)

lemma has_col_setscalar [simp]: "has_col (setscalar df c x) c' \<longleftrightarrow> c' = c \<or> has_col df c'"
  by (simp add: setscalar_def)

lemma update_same: "map_of al k = Some v \<Longrightarrow> AList.update k v al = al"
  by (induction al) (auto split: if_splits)

lemma setitem_same: "getitem df c = Inr xs \<Longrightarrow> setitem df c xs = df"
  by (auto simp: getitem_def setitem_def update_same split: option.splits)

lemma pick_distance_col_Inr:
  "pick_distance_col df a b = Inr c \<Longrightarrow> c \<in> set (candidates a b) \<and> has_col df c"
  by (auto simp: pick_distance_col_def candidates_def split: list.splits if_splits)

lemma pick_distance_col_Inl:
  "pick_distance_col df a b = Inl e \<longleftrightarrow>
     e = KeyError \<and> (\<forall>c\<in>set (candidates a b). \<not> has_col df c)"
  by (auto simp: pick_distance_col_def candidates_def split: list.splits if_splits)

lemma pick_distance_col_getitem:
  "pick_distance_col df a b = Inr c \<Longrightarrow> \<exists>xs. getitem df c = Inr xs"
  using pick_distance_col_Inr has_col_getitem by blast

lemma candidates_not_derived: "c \<in> set (candidates a b) \<Longrightarrow> c \<notin> derived_cols"
  by (auto simp: candidates_def derived_cols_def)

lemma beta_col_not_derived: "beta_col \<notin> derived_cols"
  by (simp add: beta_col_def derived_cols_def)

lemma dist_col_not_derived: "dist_col \<notin> derived_cols"
  by (simp add: dist_col_def derived_cols_def)

text \<open>Steps 2-3 to 2-5, when the columns they read are there.\<close>

lemma add_sag_K_LK_eq:
  assumes "pick_distance_col df d1 d2 = Inr c12" "pick_distance_col df d3 d4 = Inr c34"
    "getitem df c12 = Inr sd12" "getitem df c34 = Inr sd34"
    "getitem df beta_col = Inr bt"
  shows "add_sag_K_LK df d1 d2 d3 d4 = Inr (with_sag_K_LK df sd12 sd34 bt)"
proof -
  have "beta_col \<noteq> ''sag''" by (simp add: beta_col_def)
  with assms show ?thesis by (simp add: add_sag_K_LK_def with_sag_K_LK_def Let_def)
qed

text \<open>
  Step 2-6 in calculations.py: on a sheet of two real circuits with object columns the
  square root raises.
\<close>

lemma add_required_eq:
  "add_required (with_sag_K_LK df sd12 sd34 bt) d1 d3 =
     (if sqrt_of_objects df d1 d3 sd12 sd34 then Inl TypeError
      else Inr (with_required df d1 d3 sd12 sd34 bt))"
  by (simp add: add_required_def set_required_formula_def with_sag_K_LK_def
      with_required_def sqrt_of_objects_def Let_def required_of_def C1_of_def C2_of_def)

text \<open>The coercion of the copy changes no value: a number stays, a missing value stays.\<close>

lemma to_numeric_id [simp]: "to_numeric x = x"
  by (cases x) auto

lemma map_to_numeric [simp]: "map to_numeric xs = xs"
  by (induction xs) auto

lemma coerce_cols_eq:
  "coerce_cols df cs = (if \<forall>c\<in>set cs. has_col df c then Inr df else Inl KeyError)"
proof (induction cs)
  case Nil
  then show ?case by simp
next
  case (Cons c cs)
  show ?case
  proof (cases "getitem df c")
    case (Inl e)
    then have "\<not> has_col df c" "e = KeyError" by (simp_all add: getitem_Inl)
    with Inl show ?thesis by simp
  next
    case (Inr xs)
    then have "has_col df c" using has_col_getitem by blast
    moreover have "setitem df c (map to_numeric xs) = df"
      using Inr by (simp add: setitem_same)
    ultimately show ?thesis using Inr Cons by simp
  qed
qed

text \<open>Step 2-6 in the copy: the formula is taken on float64 columns.\<close>

lemma add_required_copy_eq:
  "add_required_copy (with_sag_K_LK df sd12 sd34 bt) d1 d3 =
     Inr (with_required df d1 d3 sd12 sd34 bt)"
  by (simp add: add_required_copy_def coerce_cols_eq cols_to_float_def
      set_required_formula_def sqrt_raises_def with_sag_K_LK_def with_required_def Let_def
      required_of_def C1_of_def C2_of_def)

text \<open>Steps 2-8 and 2-9.\<close>

lemma diff_worst_eq:
  assumes "getitem df dist_col = Inr cur"
  shows "bind (add_diff (with_required df d1 d3 sd12 sd34 bt)) add_worst_case =
     bind (idxmin (map2 cell_sub cur (required_of d1 d3 (nrows df) sd12 sd34 bt)))
       (\<lambda>k. Inr (augmented df d1 d3 sd12 sd34 bt cur k))"
proof -
  have b: "dist_col \<noteq> ''sag''" "dist_col \<noteq> ''K''" "dist_col \<noteq> ''LK''" "dist_col \<noteq> ''C1''"
    "dist_col \<noteq> ''C2''" "dist_col \<noteq> ''required-distance''"
    by (simp_all add: dist_col_def)
  let ?req = "required_of d1 d3 (nrows df) sd12 sd34 bt"
  let ?df2 = "with_required df d1 d3 sd12 sd34 bt"
  have s3: "add_diff ?df2 = Inr (setitem ?df2 ''diff'' (map2 cell_sub cur ?req))"
    using assms b by (simp add: add_diff_def with_required_def with_sag_K_LK_def)
  have s4: "add_worst_case (setitem ?df2 ''diff'' (map2 cell_sub cur ?req)) =
      bind (idxmin (map2 cell_sub cur ?req))
       (\<lambda>k. Inr (augmented df d1 d3 sd12 sd34 bt cur k))"
  proof (cases "idxmin (map2 cell_sub cur ?req)")
    case (Inl e)
    then show ?thesis by (simp add: add_worst_case_def)
  next
    case (Inr k)
    then have "k < length (map2 cell_sub cur ?req)"
      using idxmin_Inr by blast
    with Inr show ?thesis
      by (simp add: add_worst_case_def loc_def set_loc_def augmented_def Let_def
          setscalar_def with_required_def with_sag_K_LK_def)
  qed
  show ?thesis by (simp add: s3 s4)
qed

lemma bind_assoc: "bind (bind m f) g = bind m (\<lambda>x. bind (f x) g)"
  by (cases m) auto

text \<open>
  The two scripts on a sheet that has the columns they read: calculations.py raises on
  object columns between two real circuits; otherwise both set the eight columns, and
  both raise when no row has a diff.
\<close>

lemma process_sheet_eq:
  assumes "pick_distance_col df d1 d2 = Inr c12" "pick_distance_col df d3 d4 = Inr c34"
    "getitem df c12 = Inr sd12" "getitem df c34 = Inr sd34"
    "getitem df beta_col = Inr bt" "getitem df dist_col = Inr cur"
  shows "process_sheet df d1 d2 d3 d4 =
     (if sqrt_of_objects df d1 d3 sd12 sd34 then Inl TypeError
      else bind (idxmin (map2 cell_sub cur (required_of d1 d3 (nrows df) sd12 sd34 bt)))
             (\<lambda>k. Inr (augmented df d1 d3 sd12 sd34 bt cur k)))"
  by (simp add: process_sheet_def add_sag_K_LK_eq[OF assms(1-5)] add_required_eq
      diff_worst_eq[OF assms(6)])

lemma process_sheet_copy_eq:
  assumes "pick_distance_col df d1 d2 = Inr c12" "pick_distance_col df d3 d4 = Inr c34"
    "getitem df c12 = Inr sd12" "getitem df c34 = Inr sd34"
    "getitem df beta_col = Inr bt" "getitem df dist_col = Inr cur"
  shows "process_sheet_copy df d1 d2 d3 d4 =
     bind (idxmin (map2 cell_sub cur (required_of d1 d3 (nrows df) sd12 sd34 bt)))
       (\<lambda>k. bind (make_summary (augmented df d1 d3 sd12 sd34 bt cur k))
          (\<lambda>summ. Inr (augmented df d1 d3 sd12 sd34 bt cur k, summ)))"
proof -
  let ?rest = "\<lambda>df. bind (make_summary df) (\<lambda>summ. Inr (df, summ))"
  have "process_sheet_copy df d1 d2 d3 d4 =
      bind (bind (add_diff (with_required df d1 d3 sd12 sd34 bt)) add_worst_case) ?rest"
    by (simp add: process_sheet_copy_def add_sag_K_LK_eq[OF assms(1-5)] add_required_copy_eq
        bind_assoc)
  then show ?thesis by (simp add: diff_worst_eq[OF assms(6)] bind_assoc)
qed

text \<open>A column that the first steps read is absent: both scripts raise a KeyError.\<close>

lemma add_sag_K_LK_missing:
  assumes "\<not> has_col df beta_col
         \<or> (\<forall>c\<in>set (candidates d1 d2). \<not> has_col df c)
         \<or> (\<forall>c\<in>set (candidates d3 d4). \<not> has_col df c)"
  shows "add_sag_K_LK df d1 d2 d3 d4 = Inl KeyError"
proof (cases "pick_distance_col df d1 d2")
  case (Inl e)
  then have "e = KeyError" by (simp add: pick_distance_col_Inl)
  with Inl show ?thesis by (simp add: add_sag_K_LK_def)
next
  case c12: (Inr c12)
  show ?thesis
  proof (cases "pick_distance_col df d3 d4")
    case (Inl e)
    then have "e = KeyError" by (simp add: pick_distance_col_Inl)
    with Inl c12 show ?thesis by (simp add: add_sag_K_LK_def)
  next
    case c34: (Inr c34)
    from c12 c34 obtain sd12 sd34 where
      g: "getitem df c12 = Inr sd12" "getitem df c34 = Inr sd34"
      using pick_distance_col_getitem by blast
    from c12 c34 assms have "\<not> has_col df beta_col"
      using pick_distance_col_Inr by blast
    then have "getitem df beta_col = Inl KeyError" by (rule getitem_absent)
    moreover have "beta_col \<noteq> ''sag''" by (simp add: beta_col_def)
    ultimately show ?thesis
      using c12 c34 g by (simp add: add_sag_K_LK_def Let_def)
  qed
qed

lemma process_sheet_missing_column:
  assumes "\<not> has_col df beta_col
         \<or> (\<forall>c\<in>set (candidates d1 d2). \<not> has_col df c)
         \<or> (\<forall>c\<in>set (candidates d3 d4). \<not> has_col df c)"
  shows "process_sheet df d1 d2 d3 d4 = Inl KeyError"
    and "process_sheet_copy df d1 d2 d3 d4 = Inl KeyError"
  by (simp_all add: process_sheet_def process_sheet_copy_def add_sag_K_LK_missing[OF assms])

text \<open>What a returned sheet tells about the input.\<close>

lemma getitem_with_required_dist:
  "getitem (with_required df d1 d3 sd12 sd34 bt) dist_col = getitem df dist_col"
  by (simp add: with_required_def with_sag_K_LK_def dist_col_def)

lemma process_sheet_cols:
  assumes "process_sheet df d1 d2 d3 d4 = Inr df'"
  obtains c12 c34 sd12 sd34 bt cur where
    "pick_distance_col df d1 d2 = Inr c12" "pick_distance_col df d3 d4 = Inr c34"
    "getitem df c12 = Inr sd12" "getitem df c34 = Inr sd34"
    "getitem df beta_col = Inr bt" "getitem df dist_col = Inr cur"
proof -
  from assms obtain df1 df2 df3 where
    s1: "add_sag_K_LK df d1 d2 d3 d4 = Inr df1" and
    s2: "add_required df1 d1 d3 = Inr df2" and
    s3: "add_diff df2 = Inr df3"
    by (auto simp: process_sheet_def bind_eq_Inr)
  from s1 obtain c12 c34 sd12 sd34 bt where
    p: "pick_distance_col df d1 d2 = Inr c12" "pick_distance_col df d3 d4 = Inr c34"
       "getitem df c12 = Inr sd12" "getitem df c34 = Inr sd34" "getitem df beta_col = Inr bt"
    and df1: "df1 = with_sag_K_LK df sd12 sd34 bt"
    by (rule add_sag_K_LK_Inr)
  from s2 have df2: "df2 = with_required df d1 d3 sd12 sd34 bt"
    by (simp add: df1 add_required_eq split: if_splits)
  from s3 obtain cur where "getitem df2 dist_col = Inr cur"
    by (rule add_diff_Inr)
  then have "getitem df dist_col = Inr cur"
    by (simp add: df2 getitem_with_required_dist)
  with p show thesis by (rule that)
qed

lemma process_sheet_copy_cols:
  assumes "process_sheet_copy df d1 d2 d3 d4 = Inr r"
  obtains c12 c34 sd12 sd34 bt cur where
    "pick_distance_col df d1 d2 = Inr c12" "pick_distance_col df d3 d4 = Inr c34"
    "getitem df c12 = Inr sd12" "getitem df c34 = Inr sd34"
    "getitem df beta_col = Inr bt" "getitem df dist_col = Inr cur"
proof -
  from assms obtain df1 df2 df3 where
    s1: "add_sag_K_LK df d1 d2 d3 d4 = Inr df1" and
    s2: "add_required_copy df1 d1 d3 = Inr df2" and
    s3: "add_diff df2 = Inr df3"
    by (auto simp: process_sheet_copy_def bind_eq_Inr)
  from s1 obtain c12 c34 sd12 sd34 bt where
    p: "pick_distance_col df d1 d2 = Inr c12" "pick_distance_col df d3 d4 = Inr c34"
       "getitem df c12 = Inr sd12" "getitem df c34 = Inr sd34" "getitem df beta_col = Inr bt"
    and df1: "df1 = with_sag_K_LK df sd12 sd34 bt"
    by (rule add_sag_K_LK_Inr)
  from s2 have df2: "df2 = with_required df d1 d3 sd12 sd34 bt"
    by (simp add: df1 add_required_copy_eq)
  from s3 obtain cur where "getitem df2 dist_col = Inr cur"
    by (rule add_diff_Inr)
  then have "getitem df dist_col = Inr cur"
    by (simp add: df2 getitem_with_required_dist)
  with p show thesis by (rule that)
qed

lemma process_sheet_Inr:
  assumes "process_sheet df d1 d2 d3 d4 = Inr df'"
  obtains c12 c34 sd12 sd34 bt cur k where
    "pick_distance_col df d1 d2 = Inr c12" "pick_distance_col df d3 d4 = Inr c34"
    "getitem df c12 = Inr sd12" "getitem df c34 = Inr sd34"
    "getitem df beta_col = Inr bt" "getitem df dist_col = Inr cur"
    "idxmin (map2 cell_sub cur (required_of d1 d3 (nrows df) sd12 sd34 bt)) = Inr k"
    "df' = augmented df d1 d3 sd12 sd34 bt cur k"
proof -
  from assms obtain c12 c34 sd12 sd34 bt cur where
    p: "pick_distance_col df d1 d2 = Inr c12" "pick_distance_col df d3 d4 = Inr c34"
    "getitem df c12 = Inr sd12" "getitem df c34 = Inr sd34"
    "getitem df beta_col = Inr bt" "getitem df dist_col = Inr cur"
    by (rule process_sheet_cols)
  from assms process_sheet_eq[OF p] obtain k where
    "idxmin (map2 cell_sub cur (required_of d1 d3 (nrows df) sd12 sd34 bt)) = Inr k"
    "df' = augmented df d1 d3 sd12 sd34 bt cur k"
    by (auto simp: bind_eq_Inr split: if_splits)
  with p show thesis by (rule that)
qed

lemma process_sheet_copy_Inr:
  assumes "process_sheet_copy df d1 d2 d3 d4 = Inr (df', summ)"
  obtains c12 c34 sd12 sd34 bt cur k where
    "pick_distance_col df d1 d2 = Inr c12" "pick_distance_col df d3 d4 = Inr c34"
    "getitem df c12 = Inr sd12" "getitem df c34 = Inr sd34"
    "getitem df beta_col = Inr bt" "getitem df dist_col = Inr cur"
    "idxmin (map2 cell_sub cur (required_of d1 d3 (nrows df) sd12 sd34 bt)) = Inr k"
    "df' = augmented df d1 d3 sd12 sd34 bt cur k"
    "make_summary df' = Inr summ"
proof -
  from assms obtain c12 c34 sd12 sd34 bt cur where
    p: "pick_distance_col df d1 d2 = Inr c12" "pick_distance_col df d3 d4 = Inr c34"
    "getitem df c12 = Inr sd12" "getitem df c34 = Inr sd34"
    "getitem df beta_col = Inr bt" "getitem df dist_col = Inr cur"
    by (rule process_sheet_copy_cols)
  from assms process_sheet_copy_eq[OF p] obtain k where
    "idxmin (map2 cell_sub cur (required_of d1 d3 (nrows df) sd12 sd34 bt)) = Inr k"
    "df' = augmented df d1 d3 sd12 sd34 bt cur k"
    "make_summary df' = Inr summ"
    by (auto simp: bind_eq_Inr)
  with p show thesis by (rule that)
qed

text \<open>
  Where calculations.py returns a sheet, the copy returns the same sheet, if it makes
  its summary.
\<close>

lemma process_sheet_copy_of_original:
  assumes "process_sheet df d1 d2 d3 d4 = Inr df'"
  shows "process_sheet_copy df d1 d2 d3 d4 =
     bind (make_summary df') (\<lambda>summ. Inr (df', summ))"
proof -
  from assms obtain c12 c34 sd12 sd34 bt cur k where
    p: "pick_distance_col df d1 d2 = Inr c12" "pick_distance_col df d3 d4 = Inr c34"
       "getitem df c12 = Inr sd12" "getitem df c34 = Inr sd34"
       "getitem df beta_col = Inr bt" "getitem df dist_col = Inr cur"
    and k: "idxmin (map2 cell_sub cur (required_of d1 d3 (nrows df) sd12 sd34 bt)) = Inr k"
    and df': "df' = augmented df d1 d3 sd12 sd34 bt cur k"
    by (rule process_sheet_Inr)
  show ?thesis by (simp add: process_sheet_copy_eq[OF p] k df')
qed

lemma nrows_augmented [simp]: "nrows (augmented df d1 d3 sd12 sd34 bt cur k) = nrows df"
  by (simp add: augmented_def Let_def)

lemma sheet_dtype_augmented [simp]:
  "sheet_dtype (augmented df d1 d3 sd12 sd34 bt cur k) = sheet_dtype df"
  by (simp add: augmented_def Let_def)

lemma getitem_augmented:
  "getitem (augmented df d1 d3 sd12 sd34 bt cur k) c =
     (if c = ''worst-case'' then Inr ((replicate (nrows df) NaN)
          [k := map2 cell_sub cur (required_of d1 d3 (nrows df) sd12 sd34 bt) ! k])
      else if c = ''diff'' then
        Inr (map2 cell_sub cur (required_of d1 d3 (nrows df) sd12 sd34 bt))
      else if c = ''required-distance'' then Inr (required_of d1 d3 (nrows df) sd12 sd34 bt)
      else if c = ''C2'' then Inr (replicate (nrows df) (C2_of d1 d3))
      else if c = ''C1'' then Inr (replicate (nrows df) (C1_of d1 d3))
      else if c = ''LK'' then Inr (replicate (nrows df) (Num 2))
      else if c = ''K'' then Inr (map K_of bt)
      else if c = ''sag'' then Inr (map2 row_max sd12 sd34)
      else getitem df c)"
  by (simp add: augmented_def Let_def)

lemma getitem_augmented_other:
  "c \<notin> derived_cols \<Longrightarrow> getitem (augmented df d1 d3 sd12 sd34 bt cur k) c = getitem df c"
  by (simp add: getitem_augmented derived_cols_def)

lemma has_col_augmented:
  "c \<notin> derived_cols \<Longrightarrow> has_col (augmented df d1 d3 sd12 sd34 bt cur k) c = has_col df c"
  by (simp add: has_col_getitem getitem_augmented_other)

lemma wf_frame_length:
  assumes "wf_frame df" "getitem df c = Inr xs"
  shows "length xs = nrows df"
proof -
  from assms(2) have "map_of (columns df) c = Some xs"
    by (auto simp: getitem_def split: option.splits)
  then have "(c, xs) \<in> set (columns df)" by (rule map_of_SomeD)
  with assms(1) show ?thesis by (auto simp: wf_frame_def list_all_iff)
qed

lemma loc_Inr: "loc df i c = Inr x \<longleftrightarrow> (\<exists>xs. getitem df c = Inr xs \<and> i < length xs \<and> x = xs ! i)"
  by (auto simp: loc_def bind_eq_Inr split: if_splits)

lemma length_map5 [simp]:
  "length (map5 f as bs cs ds es) =
     min (length as) (min (length bs) (min (length cs) (min (length ds) (length es))))"
  by (induction f as bs cs ds es rule: map5.induct) auto

lemma nth_map5:
  "i < length as \<Longrightarrow> i < length bs \<Longrightarrow> i < length cs \<Longrightarrow> i < length ds \<Longrightarrow> i < length es
   \<Longrightarrow> map5 f as bs cs ds es ! i = f (as ! i) (bs ! i) (cs ! i) (ds ! i) (es ! i)"
proof (induction f as bs cs ds es arbitrary: i rule: map5.induct)
  case (1 f a as b bs c cs d ds e es)
  then show ?case by (cases i) auto
qed auto

lemma length_required_of:
  assumes "length sd12 = n" "length sd34 = n" "length bt = n"
  shows "length (required_of d1 d3 n sd12 sd34 bt) = n"
  using assms by (simp add: required_of_def)

subsection \<open>The summary of the copy\<close>

lemma first_valid_index_single:
  assumes "k < n"
  shows "first_valid_index ((replicate n NaN)[k := Num v]) = Some k"
  using assms
  by (auto simp: first_valid_index_def find_Some_iff nth_list_update intro!: exI[of _ k])

lemma make_summary_Inr:
  assumes "make_summary df = Inr summ" "getitem df ''worst-case'' = Inr wc"
    "first_valid_index wc = Some k"
  shows "summary_of_row df k summ
     \<and> s_ok_flag summ = (if cell_gt (s_req summ) (s_cur summ) then ''not ok'' else ''ok'')"
  using assms
  by (auto simp: make_summary_def bind_eq_Inr summary_of_row_def)

lemma is_worst_row_idxmin: "idxmin diff = Inr k \<Longrightarrow> is_worst_row diff k"
  using idxmin_Inr[of diff k] by (auto simp: is_worst_row_def)

lemma cell_sub_Num: "cell_sub x y = Num v \<Longrightarrow> \<exists>a b. x = Num a \<and> y = Num b \<and> v = a - b"
  by (cases x; cases y) auto

lemma idxmin_has_value:
  assumes "j < length xs" "xs ! j = Num v"
  shows "\<exists>k. idxmin xs = Inr k"
proof (cases "idxmin xs")
  case (Inl e)
  then have "\<forall>x\<in>set xs. x = NaN" by (simp add: idxmin_Inl)
  with assms have False by (metis cell.distinct(1) nth_mem)
  then show ?thesis ..
next
  case (Inr k)
  then show ?thesis by blast
qed

text \<open>The worst-case row of the frame with the eight columns.\<close>

lemma augmented_worst_row:
  assumes "wf_frame df"
    and "getitem df c12 = Inr sd12" and "getitem df c34 = Inr sd34"
    and "getitem df beta_col = Inr bt" and "getitem df dist_col = Inr cur"
    and "idxmin (map2 cell_sub cur (required_of d1 d3 (nrows df) sd12 sd34 bt)) = Inr k"
    and "df' = augmented df d1 d3 sd12 sd34 bt cur k"
    and "req = required_of d1 d3 (nrows df) sd12 sd34 bt"
  shows "getitem df' dist_col = Inr cur"
    "getitem df' ''required-distance'' = Inr req"
    "getitem df' ''diff'' = Inr (map2 cell_sub cur req)"
    "length cur = nrows df" "length req = nrows df" "k < nrows df"
    "is_worst_row (map2 cell_sub cur req) k"
    "getitem df' ''worst-case'' = Inr ((replicate (nrows df) NaN)[k := map2 cell_sub cur req ! k])"
    "first_valid_index ((replicate (nrows df) NaN)[k := map2 cell_sub cur req ! k]) = Some k"
proof -
  let ?diff = "map2 cell_sub cur req"
  have len: "length sd12 = nrows df" "length sd34 = nrows df" "length bt = nrows df"
    "length cur = nrows df"
    using assms(1-5) by (auto dest: wf_frame_length)
  then have lreq: "length req = nrows df" by (simp add: assms(8) length_required_of)
  with len have ldiff: "length ?diff = nrows df" by simp
  have worst: "is_worst_row ?diff k" using assms(6,8) by (simp add: is_worst_row_idxmin)
  then have "k < length ?diff" unfolding is_worst_row_def by (rule conjunct1)
  then have kn: "k < nrows df" by (simp only: ldiff)
  from worst obtain v where v: "?diff ! k = Num v" unfolding is_worst_row_def by blast
  show "first_valid_index ((replicate (nrows df) NaN)[k := ?diff ! k]) = Some k"
    using kn by (simp only: v first_valid_index_single)
  show "getitem df' dist_col = Inr cur"
    using assms(5) by (simp add: assms(7) getitem_augmented_other dist_col_not_derived)
  show "getitem df' ''required-distance'' = Inr req"
    "getitem df' ''diff'' = Inr ?diff"
    "getitem df' ''worst-case'' = Inr ((replicate (nrows df) NaN)[k := ?diff ! k])"
    by (simp_all add: assms(7,8) getitem_augmented)
  show "length cur = nrows df" "length req = nrows df" "k < nrows df"
    "is_worst_row ?diff k"
    by (fact len(4) lreq kn worst)+
qed

text \<open>The summary is made when the sheet has the column Station.\<close>

lemma make_summary_augmented:
  assumes "wf_frame df"
    and "getitem df c12 = Inr sd12" and "getitem df c34 = Inr sd34"
    and "getitem df beta_col = Inr bt" and "getitem df dist_col = Inr cur"
    and "idxmin (map2 cell_sub cur (required_of d1 d3 (nrows df) sd12 sd34 bt)) = Inr k"
    and "has_col df ''Station''"
  shows "\<exists>summ. make_summary (augmented df d1 d3 sd12 sd34 bt cur k) = Inr summ"
proof -
  let ?req = "required_of d1 d3 (nrows df) sd12 sd34 bt"
  let ?diff = "map2 cell_sub cur ?req"
  let ?A = "augmented df d1 d3 sd12 sd34 bt cur k"
  from assms(7) obtain st where st: "getitem df ''Station'' = Inr st"
    using has_col_getitem by blast
  have len: "length sd12 = nrows df" "length sd34 = nrows df" "length bt = nrows df"
    "length cur = nrows df" "length st = nrows df"
    using assms(1-5) st by (auto dest: wf_frame_length)
  then have lreq: "length ?req = nrows df" by (simp add: length_required_of)
  have worst: "is_worst_row ?diff k" using assms(6) by (rule is_worst_row_idxmin)
  then have "k < length ?diff" unfolding is_worst_row_def by (rule conjunct1)
  then have kn: "k < nrows df" using len lreq by simp
  from worst obtain v where v: "?diff ! k = Num v" unfolding is_worst_row_def by blast
  have fvi: "first_valid_index ((replicate (nrows df) NaN)[k := ?diff ! k]) = Some k"
    using kn by (simp only: v first_valid_index_single)
  have nd: "''Station'' \<notin> derived_cols" by (simp add: derived_cols_def)
  have g: "getitem ?A ''Station'' = Inr st" "getitem ?A beta_col = Inr bt"
    "getitem ?A dist_col = Inr cur"
    using st assms(4,5)
    by (simp_all add: getitem_augmented_other nd beta_col_not_derived dist_col_not_derived)
  show ?thesis
    using kn len lreq fvi g
    by (simp add: make_summary_def loc_def getitem_augmented)
qed

text \<open>
  A sheet that has the columns and a row with a diff is processed: by the copy when it
  has the column Station, by calculations.py unless it takes the square root of object
  columns.
\<close>

lemma sheet_is_processed:
  assumes "wf_frame df"
    and "pick_distance_col df d1 d2 = Inr c12" and "pick_distance_col df d3 d4 = Inr c34"
    and "getitem df c12 = Inr sd12" and "getitem df c34 = Inr sd34"
    and "getitem df beta_col = Inr bt" and "getitem df dist_col = Inr cur"
    and "j < nrows df"
    and "map2 cell_sub cur (required_of d1 d3 (nrows df) sd12 sd34 bt) ! j = Num v"
  obtains k where
    "idxmin (map2 cell_sub cur (required_of d1 d3 (nrows df) sd12 sd34 bt)) = Inr k"
    "\<not> sqrt_of_objects df d1 d3 sd12 sd34 \<Longrightarrow>
       process_sheet df d1 d2 d3 d4 = Inr (augmented df d1 d3 sd12 sd34 bt cur k)"
    "has_col df ''Station'' \<Longrightarrow>
       \<exists>summ. process_sheet_copy df d1 d2 d3 d4
         = Inr (augmented df d1 d3 sd12 sd34 bt cur k, summ)"
proof -
  let ?req = "required_of d1 d3 (nrows df) sd12 sd34 bt"
  let ?diff = "map2 cell_sub cur ?req"
  have len: "length sd12 = nrows df" "length sd34 = nrows df" "length bt = nrows df"
    "length cur = nrows df"
    using assms(1,4-7) by (auto dest: wf_frame_length)
  then have "length ?req = nrows df" by (simp add: length_required_of)
  with len assms(8) have "j < length ?diff" by simp
  with assms(9) obtain k where k: "idxmin ?diff = Inr k"
    using idxmin_has_value by blast
  have "process_sheet df d1 d2 d3 d4 = Inr (augmented df d1 d3 sd12 sd34 bt cur k)"
    if "\<not> sqrt_of_objects df d1 d3 sd12 sd34"
    using that k by (simp add: process_sheet_eq[OF assms(2-7)])
  moreover have "\<exists>summ. process_sheet_copy df d1 d2 d3 d4
         = Inr (augmented df d1 d3 sd12 sd34 bt cur k, summ)"
    if "has_col df ''Station''"
    using make_summary_augmented[OF assms(1,4-7) k that] k
    by (auto simp: process_sheet_copy_eq[OF assms(2-7)])
  ultimately show thesis using k by (rule_tac that)
qed

section \<open>The required distance between two real circuits\<close>

lemma ph_sheet_run: "process_sheet ph_sheet 41 42 43 44 = Inr ph_sheet_out"
  by (simp add: ph_sheet_def ph_sheet_out_def eval_defs)

lemma ph_sheet_copy_run:
  "process_sheet_copy ph_sheet 41 42 43 44 = Inr (ph_sheet_out, ph_summary)"
  by (simp add: ph_sheet_def ph_sheet_out_def ph_summary_def eval_defs)



section \<open>The worst-case row and the summary\<close>


lemma worst_row_facts_copy:
  assumes "wf_frame df" and "process_sheet_copy df d1 d2 d3 d4 = Inr (df', summ)"
  obtains k cur req where
    "make_summary df' = Inr summ" "getitem df' dist_col = Inr cur"
    "getitem df' ''required-distance'' = Inr req"
    "getitem df' ''diff'' = Inr (map2 cell_sub cur req)"
    "length cur = nrows df" "length req = nrows df" "k < nrows df"
    "is_worst_row (map2 cell_sub cur req) k"
    "getitem df' ''worst-case'' = Inr ((replicate (nrows df) NaN)[k := map2 cell_sub cur req ! k])"
    "first_valid_index ((replicate (nrows df) NaN)[k := map2 cell_sub cur req ! k]) = Some k"
proof -
  from assms(2) obtain c12 c34 sd12 sd34 bt cur k where
    p: "pick_distance_col df d1 d2 = Inr c12" "pick_distance_col df d3 d4 = Inr c34"
       "getitem df c12 = Inr sd12" "getitem df c34 = Inr sd34"
       "getitem df beta_col = Inr bt" "getitem df dist_col = Inr cur"
    and k: "idxmin (map2 cell_sub cur (required_of d1 d3 (nrows df) sd12 sd34 bt)) = Inr k"
    and df': "df' = augmented df d1 d3 sd12 sd34 bt cur k"
    and ms: "make_summary df' = Inr summ"
    by (rule process_sheet_copy_Inr)
  from ms augmented_worst_row[OF assms(1) p(3-6) k df' refl] show thesis
    by (rule that)
qed



text \<open>
  Claim C5.  The pass/fail flag of the summary is computed on the worst-case row alone:
  it is "ok" when required distance <= measured distance on that row, "not ok" otherwise.
\<close>

theorem ok_flag_of_worst_row:
  assumes "wf_frame df" and "process_sheet_copy df d1 d2 d3 d4 = Inr (df', summ)"
  shows "\<exists>k diff req cur.
      getitem df' ''diff'' = Inr diff \<and> is_worst_row diff k
    \<and> loc df' k ''required-distance'' = Inr (Num req) \<and> loc df' k dist_col = Inr (Num cur)
    \<and> s_req summ = Num req \<and> s_cur summ = Num cur
    \<and> s_ok_flag summ = (if req \<le> cur then ''ok'' else ''not ok'')"
proof -
  from assms obtain k cur req where
    ms: "make_summary df' = Inr summ" and
    f: "getitem df' dist_col = Inr cur"
    "getitem df' ''required-distance'' = Inr req"
    "getitem df' ''diff'' = Inr (map2 cell_sub cur req)"
    "length cur = nrows df" "length req = nrows df" "k < nrows df"
    "is_worst_row (map2 cell_sub cur req) k"
    "getitem df' ''worst-case'' = Inr ((replicate (nrows df) NaN)[k := map2 cell_sub cur req ! k])"
    "first_valid_index ((replicate (nrows df) NaN)[k := map2 cell_sub cur req ! k]) = Some k"
    by (rule worst_row_facts_copy)
  from make_summary_Inr[OF ms f(8,9)] have
    s: "summary_of_row df' k summ"
    and flag: "s_ok_flag summ = (if cell_gt (s_req summ) (s_cur summ) then ''not ok'' else ''ok'')"
    by simp_all
  from s f(1,2,4,5,6) have rc: "s_req summ = req ! k" "s_cur summ = cur ! k"
    by (auto simp: summary_of_row_def loc_Inr)
  from f(7) obtain v where "map2 cell_sub cur req ! k = Num v"
    unfolding is_worst_row_def by blast
  with f(4,5,6) have "cell_sub (cur ! k) (req ! k) = Num v" by simp
  then obtain c r where cr: "cur ! k = Num c" "req ! k = Num r"
    by (auto dest: cell_sub_Num)
  have "loc df' k ''required-distance'' = Inr (Num r)" "loc df' k dist_col = Inr (Num c)"
    using f(1,2,4,5,6) cr by (simp_all add: loc_Inr)
  moreover have "s_ok_flag summ = (if r \<le> c then ''ok'' else ''not ok'')"
    using flag rc cr by auto
  moreover have "s_req summ = Num r" "s_cur summ = Num c" using rc cr by simp_all
  ultimately show ?thesis using f(3,7) by (intro exI[of _ k] exI[of _ "map2 cell_sub cur req"]
        exI[of _ r] exI[of _ c]) simp
qed

theorem ok_flag_of_worst_row_witness:
  "wf_frame ph_sheet
   \<and> process_sheet_copy ph_sheet 41 42 43 44 = Inr (ph_sheet_out, ph_summary)
   \<and> s_req ph_summary = Num 4.53 \<and> s_cur ph_summary = Num 4
   \<and> s_ok_flag ph_summary = ''not ok''"
proof -
  have wf: "wf_frame ph_sheet" by (simp add: ph_sheet_def wf_frame_def eval_defs)
  from ok_flag_of_worst_row[OF wf ph_sheet_copy_run] obtain req cur where
    "s_req ph_summary = Num req" "s_cur ph_summary = Num cur"
    "s_ok_flag ph_summary = (if req \<le> cur then ''ok'' else ''not ok'')" by blast
  then have "s_req ph_summary = Num 4.53 \<and> s_cur ph_summary = Num 4
     \<and> s_ok_flag ph_summary = ''not ok''"
    by (simp add: ph_summary_def)
  with wf ph_sheet_copy_run show ?thesis by simp
qed

section \<open>Processing a processed sheet again\<close>

lemma pick_distance_col_cong:
  assumes "\<And>c. c \<in> set (candidates a b) \<Longrightarrow> has_col df' c = has_col df c"
  shows "pick_distance_col df' a b = pick_distance_col df a b"
proof -
  have "filter (has_col df') (candidates a b) = filter (has_col df) (candidates a b)"
    using assms by (intro filter_cong) auto
  then show ?thesis by (simp add: pick_distance_col_def)
qed

lemma pick_distance_col_augmented:
  "pick_distance_col (augmented df d1 d3 sd12 sd34 bt cur k) a b = pick_distance_col df a b"
  by (rule pick_distance_col_cong) (simp add: has_col_augmented candidates_not_derived)

lemma augmented_idem:
  "augmented (augmented df d1 d3 sd12 sd34 bt cur k) d1 d3 sd12 sd34 bt cur k
     = augmented df d1 d3 sd12 sd34 bt cur k"
proof -
  define A where "A = augmented df d1 d3 sd12 sd34 bt cur k"
  have n: "nrows A = nrows df" by (simp add: A_def)
  have g: "getitem A ''sag'' = Inr (map2 row_max sd12 sd34)"
    "getitem A ''K'' = Inr (map K_of bt)"
    "getitem A ''LK'' = Inr (replicate (nrows df) (Num 2))"
    "getitem A ''C1'' = Inr (replicate (nrows df) (C1_of d1 d3))"
    "getitem A ''C2'' = Inr (replicate (nrows df) (C2_of d1 d3))"
    "getitem A ''required-distance'' = Inr (required_of d1 d3 (nrows df) sd12 sd34 bt)"
    "getitem A ''diff'' = Inr (map2 cell_sub cur (required_of d1 d3 (nrows df) sd12 sd34 bt))"
    "getitem A ''worst-case'' = Inr ((replicate (nrows df) NaN)
          [k := map2 cell_sub cur (required_of d1 d3 (nrows df) sd12 sd34 bt) ! k])"
    by (simp_all add: A_def getitem_augmented)
  have "augmented A d1 d3 sd12 sd34 bt cur k = A"
    by (subst augmented_def) (simp add: Let_def n g setitem_same)
  then show ?thesis by (simp add: A_def)
qed

lemma process_sheet_again:
  assumes "process_sheet df d1 d2 d3 d4 = Inr df'"
  shows "process_sheet df' d1 d2 d3 d4 = Inr df'"
proof -
  from assms obtain c12 c34 sd12 sd34 bt cur k where
    p: "pick_distance_col df d1 d2 = Inr c12" "pick_distance_col df d3 d4 = Inr c34"
       "getitem df c12 = Inr sd12" "getitem df c34 = Inr sd34"
       "getitem df beta_col = Inr bt" "getitem df dist_col = Inr cur"
    and k: "idxmin (map2 cell_sub cur (required_of d1 d3 (nrows df) sd12 sd34 bt)) = Inr k"
    and df': "df' = augmented df d1 d3 sd12 sd34 bt cur k"
    by (rule process_sheet_Inr)
  from assms process_sheet_eq[OF p] have floats: "\<not> sqrt_of_objects df d1 d3 sd12 sd34"
    by (auto split: if_splits)
  have nd: "c12 \<notin> derived_cols" "c34 \<notin> derived_cols"
    using p(1,2) pick_distance_col_Inr candidates_not_derived by blast+
  have p': "pick_distance_col df' d1 d2 = Inr c12" "pick_distance_col df' d3 d4 = Inr c34"
    "getitem df' c12 = Inr sd12" "getitem df' c34 = Inr sd34"
    "getitem df' beta_col = Inr bt" "getitem df' dist_col = Inr cur"
    using p nd
    by (simp_all add: df' pick_distance_col_augmented getitem_augmented_other
        beta_col_not_derived dist_col_not_derived)
  have "nrows df' = nrows df" "sheet_dtype df' = sheet_dtype df" by (simp_all add: df')
  then have "\<not> sqrt_of_objects df' d1 d3 sd12 sd34"
    using floats by (simp add: sqrt_of_objects_def)
  with process_sheet_eq[OF p'] k \<open>nrows df' = nrows df\<close> show ?thesis
    by (simp add: df' augmented_idem)
qed

text \<open>
  Claim C8.  The worst-case computation is idempotent: \<open>process_sheet\<close> applied to the
  sheet it has returned (the input columns are unchanged in it) returns that sheet again,
  so the same row is selected with the same diff; the copy also returns the same summary.
\<close>

theorem process_sheet_idempotent:
  assumes "process_sheet df d1 d2 d3 d4 = Inr df'"
  shows "process_sheet df' d1 d2 d3 d4 = Inr df'
     \<and> (\<forall>summ. process_sheet_copy df d1 d2 d3 d4 = Inr (df', summ) \<longrightarrow>
          process_sheet_copy df' d1 d2 d3 d4 = Inr (df', summ))"
  using process_sheet_again[OF assms]
  by (simp add: process_sheet_copy_of_original[OF assms]
      process_sheet_copy_of_original[OF process_sheet_again[OF assms]])

theorem process_sheet_idempotent_witness:
  "process_sheet ph_sheet 41 42 43 44 = Inr ph_sheet_out
   \<and> process_sheet ph_sheet_out 41 42 43 44 = Inr ph_sheet_out
   \<and> process_sheet_copy ph_sheet 41 42 43 44 = Inr (ph_sheet_out, ph_summary)
   \<and> process_sheet_copy ph_sheet_out 41 42 43 44 = Inr (ph_sheet_out, ph_summary)"
  using process_sheet_idempotent[OF ph_sheet_run] ph_sheet_run ph_sheet_copy_run by simp

section \<open>Columns that the earth-wire rule does not use\<close>

text \<open>
  Claim C9.  Also when the earth-wire rule applies and the required distance is the
  constant 1.93, \<open>process_sheet\<close> needs the beta angle column and a distance/sag column
  for each of the two spans: when one of them is absent it raises (a KeyError) and
  returns no sheet, and the loop of \<open>process_workbook\<close> in calculations-copy.py skips the
  sheet, leaving the workbooks as they are.
\<close>

theorem earth_wire_needs_unused_columns:
  assumes "which_circuit d1 = EARTH_WIRE \<or> which_circuit d3 = EARTH_WIRE"
    and "\<not> has_col df beta_col
         \<or> (\<forall>c\<in>set (candidates d1 d2). \<not> has_col df c)
         \<or> (\<forall>c\<in>set (candidates d3 d4). \<not> has_col df c)"
  shows "process_sheet df d1 d2 d3 d4 = Inl KeyError
     \<and> process_sheet_copy df d1 d2 d3 d4 = Inl KeyError
     \<and> (parse_sheet_name sheet_name = Inr (d1, d2, d3, d4)
          \<and> map_of (wb st) sheet_name = Some df \<longrightarrow>
          sheet_step start_span end_span sheet_name st = st)"
proof -
  have p: "process_sheet df d1 d2 d3 d4 = Inl KeyError"
    and c: "process_sheet_copy df d1 d2 d3 d4 = Inl KeyError"
    by (rule process_sheet_missing_column[OF assms(2)])+
  from assms(2) have "\<not> has_col (read_sheet df) beta_col
         \<or> (\<forall>c\<in>set (candidates d1 d2). \<not> has_col (read_sheet df) c)
         \<or> (\<forall>c\<in>set (candidates d3 d4). \<not> has_col (read_sheet df) c)"
    by simp
  then have "process_sheet_copy (read_sheet df) d1 d2 d3 d4 = Inl KeyError"
    by (rule process_sheet_missing_column)
  then have "sheet_step start_span end_span sheet_name st = st"
    if "parse_sheet_name sheet_name = Inr (d1, d2, d3, d4)"
       "map_of (wb st) sheet_name = Some df"
    using that by (simp add: sheet_step_def Let_def)
  with p c show ?thesis by blast
qed

theorem earth_wire_needs_unused_columns_witness:
  "which_circuit 59 = EARTH_WIRE \<and> \<not> has_col ew_sheet_no_beta beta_col
   \<and> has_col ew_sheet_no_beta dist_col
   \<and> process_sheet ew_sheet_no_beta 59 39 41 21 = Inl KeyError
   \<and> process_sheet_copy ew_sheet_no_beta 59 39 41 21 = Inl KeyError
   \<and> parse_sheet_name ''59-39_41-21'' = Inr (59, 39, 41, 21)
   \<and> sheet_step ''TR1730a002'' ''TR1730a003'' ''59-39_41-21'' no_beta_run = no_beta_run"
proof -
  have ew: "which_circuit 59 = EARTH_WIRE \<or> which_circuit 41 = EARTH_WIRE"
    by (simp add: which_circuit_def CIRCUIT_1_def CIRCUIT_2_def)
  have nb: "\<not> has_col ew_sheet_no_beta beta_col"
    by (simp add: ew_sheet_no_beta_def has_col_def beta_col_def dist_col_def)
  have dc: "has_col ew_sheet_no_beta dist_col"
    by (simp add: ew_sheet_no_beta_def has_col_def)
  have w: "which_circuit 59 = EARTH_WIRE"
    by (simp add: which_circuit_def CIRCUIT_1_def CIRCUIT_2_def)
  have ps: "parse_sheet_name ''59-39_41-21'' = Inr (59, 39, 41, 21)"
    by code_simp
  have m: "map_of (wb no_beta_run) ''59-39_41-21'' = Some ew_sheet_no_beta"
    by (simp add: no_beta_run_def)
  from earth_wire_needs_unused_columns[OF ew disjI1[OF nb],
      where sheet_name = "''59-39_41-21''" and st = no_beta_run
        and start_span = "''TR1730a002''" and end_span = "''TR1730a003''"] ps m
  have "process_sheet ew_sheet_no_beta 59 39 41 21 = Inl KeyError"
    "process_sheet_copy ew_sheet_no_beta 59 39 41 21 = Inl KeyError"
    "sheet_step ''TR1730a002'' ''TR1730a003'' ''59-39_41-21'' no_beta_run = no_beta_run"
    by blast+
  with w nb dc ps show ?thesis by blast
qed

section \<open>The earth-wire rule\<close>

lemma earth_wire_original:
  assumes "which_circuit d1 = EARTH_WIRE \<or> which_circuit d3 = EARTH_WIRE"
      and "process_sheet df d1 d2 d3 d4 = Inr df'"
  shows "getitem df' ''C1'' = Inr (replicate (nrows df) (Num 1.93))
       \<and> getitem df' ''C2'' = Inr (replicate (nrows df) (Num 0))
       \<and> getitem df' ''required-distance'' = Inr (replicate (nrows df) (Num 1.93))"
  using assms
  by (auto simp: process_sheet_def add_sag_K_LK_def add_required_def add_diff_def
      add_worst_case_def set_loc_def bind_eq_Inr Let_def)

lemma earth_wire_copy:
  assumes "which_circuit d1 = EARTH_WIRE \<or> which_circuit d3 = EARTH_WIRE"
      and "process_sheet_copy df d1 d2 d3 d4 = Inr (df', summ)"
  shows "getitem df' ''C1'' = Inr (replicate (nrows df) (Num 1.93))
       \<and> getitem df' ''C2'' = Inr (replicate (nrows df) (Num 0))
       \<and> getitem df' ''required-distance'' = Inr (replicate (nrows df) (Num 1.93))"
  using assms
  by (auto simp: process_sheet_copy_def add_sag_K_LK_def add_required_copy_def add_diff_def
      add_worst_case_def set_loc_def bind_eq_Inr Let_def)

lemma ew_sheet_copy_run:
  "process_sheet_copy ew_sheet 59 39 41 21 = Inr (ew_sheet_out, ew_summary)"
  by (simp add: ew_sheet_def ew_sheet_out_def ew_summary_def eval_defs)

lemma pick_distance_col_present:
  assumes "\<exists>c\<in>set (candidates a b). has_col df c"
  obtains c where "pick_distance_col df a b = Inr c"
  using assms by (cases "pick_distance_col df a b") (auto simp: pick_distance_col_Inl)

text \<open>
  An earth-wire sheet that has its columns and a row with a measured distance is
  processed by both scripts, whatever the dtype of its columns is, and the summary of
  the copy holds the constants.
\<close>

lemma earth_wire_sheet_is_processed:
  assumes "which_circuit d1 = EARTH_WIRE \<or> which_circuit d3 = EARTH_WIRE"
    and "wf_frame df"
    and "\<exists>c\<in>set (candidates d1 d2). has_col df c"
    and "\<exists>c\<in>set (candidates d3 d4). has_col df c"
    and "has_col df beta_col"
    and "loc df j dist_col = Inr (Num m)"
  shows "\<exists>df'. process_sheet df d1 d2 d3 d4 = Inr df'
     \<and> (has_col df ''Station'' \<longrightarrow>
          (\<exists>summ. process_sheet_copy df d1 d2 d3 d4 = Inr (df', summ)
             \<and> s_c1 summ = Num 1.93 \<and> s_c2 summ = Num 0 \<and> s_req summ = Num 1.93))"
proof -
  from assms(3) obtain c12 where c12: "pick_distance_col df d1 d2 = Inr c12"
    by (rule pick_distance_col_present)
  from assms(4) obtain c34 where c34: "pick_distance_col df d3 d4 = Inr c34"
    by (rule pick_distance_col_present)
  from c12 c34 assms(5) obtain sd12 sd34 bt where
    g: "getitem df c12 = Inr sd12" "getitem df c34 = Inr sd34" "getitem df beta_col = Inr bt"
    using pick_distance_col_getitem has_col_getitem by metis
  from assms(6) obtain cur where
    cur: "getitem df dist_col = Inr cur" and j: "j < length cur" "cur ! j = Num m"
    by (auto simp: loc_Inr)
  let ?req = "required_of d1 d3 (nrows df) sd12 sd34 bt"
  let ?diff = "map2 cell_sub cur ?req"
  have req: "?req = replicate (nrows df) (Num 1.93)"
    using assms(1) by (auto simp: required_of_def)
  have len: "length cur = nrows df" using assms(2) cur by (rule wf_frame_length)
  with j have jn: "j < nrows df" by simp
  have diffj: "?diff ! j = Num (m - 1.93)"
    using j jn len by (simp add: req)
  have floats: "\<not> sqrt_of_objects df d1 d3 sd12 sd34"
    using assms(1) by (auto simp: sqrt_of_objects_def)
  from sheet_is_processed[OF assms(2) c12 c34 g cur jn diffj] obtain k where
    k: "idxmin ?diff = Inr k"
    and run: "process_sheet df d1 d2 d3 d4 = Inr (augmented df d1 d3 sd12 sd34 bt cur k)"
    and copy: "has_col df ''Station'' \<Longrightarrow> \<exists>summ. process_sheet_copy df d1 d2 d3 d4
         = Inr (augmented df d1 d3 sd12 sd34 bt cur k, summ)"
    using floats by blast
  let ?A = "augmented df d1 d3 sd12 sd34 bt cur k"
  have "\<exists>summ. process_sheet_copy df d1 d2 d3 d4 = Inr (?A, summ)
      \<and> s_c1 summ = Num 1.93 \<and> s_c2 summ = Num 0 \<and> s_req summ = Num 1.93"
    if "has_col df ''Station''"
  proof -
    from copy[OF that] obtain summ where
      summ: "process_sheet_copy df d1 d2 d3 d4 = Inr (?A, summ)" by blast
    then have ms: "make_summary ?A = Inr summ"
      using k by (simp add: process_sheet_copy_eq[OF c12 c34 g cur] bind_eq_Inr)
    note f = augmented_worst_row[OF assms(2) g cur k refl refl]
    from make_summary_Inr[OF ms f(8,9)] have s: "summary_of_row ?A k summ" by simp
    have c: "C1_of d1 d3 = Num 1.93" "C2_of d1 d3 = Num 0"
      using assms(1) by (auto simp: C1_of_def C2_of_def)
    from s f(6) have "s_c1 summ = Num 1.93" "s_c2 summ = Num 0" "s_req summ = Num 1.93"
      by (simp_all add: summary_of_row_def loc_Inr getitem_augmented c req)
    with summ show ?thesis by blast
  qed
  with run show ?thesis by blast
qed

text \<open>
  Claim C2.  When the circuit of d1 or of d3 is EARTH_WIRE, \<open>process_sheet\<close> of
  calculations.py and \<open>process_sheet\<close> of calculations-copy.py set C1 = 1.93, C2 = 0 and
  required-distance = 1.93 in every row, whatever the sag, K, LK and beta angle of the
  row are: every sheet that one of them returns holds these columns, and a sheet that
  has its columns (those of claim C9) and a measured distance in some row is returned by
  calculations.py and, when it has the column Station of the summary, by the copy, with
  the constants in the summary.
\<close>

theorem earth_wire_flat_threshold:
  assumes "which_circuit d1 = EARTH_WIRE \<or> which_circuit d3 = EARTH_WIRE"
  shows "(\<forall>df'. process_sheet df d1 d2 d3 d4 = Inr df'
              \<or> (\<exists>summ. process_sheet_copy df d1 d2 d3 d4 = Inr (df', summ)) \<longrightarrow>
            getitem df' ''C1'' = Inr (replicate (nrows df) (Num 1.93))
          \<and> getitem df' ''C2'' = Inr (replicate (nrows df) (Num 0))
          \<and> getitem df' ''required-distance'' = Inr (replicate (nrows df) (Num 1.93)))
       \<and> (wf_frame df
            \<and> (\<exists>c\<in>set (candidates d1 d2). has_col df c)
            \<and> (\<exists>c\<in>set (candidates d3 d4). has_col df c)
            \<and> has_col df beta_col
            \<and> (\<exists>j m. loc df j dist_col = Inr (Num m)) \<longrightarrow>
          (\<exists>df'. process_sheet df d1 d2 d3 d4 = Inr df'
             \<and> (has_col df ''Station'' \<longrightarrow>
                  (\<exists>summ. process_sheet_copy df d1 d2 d3 d4 = Inr (df', summ)
                     \<and> s_c1 summ = Num 1.93 \<and> s_c2 summ = Num 0
                     \<and> s_req summ = Num 1.93))))"
proof (intro conjI allI impI)
  fix df'
  assume "process_sheet df d1 d2 d3 d4 = Inr df'
     \<or> (\<exists>summ. process_sheet_copy df d1 d2 d3 d4 = Inr (df', summ))"
  then have "getitem df' ''C1'' = Inr (replicate (nrows df) (Num 1.93))
       \<and> getitem df' ''C2'' = Inr (replicate (nrows df) (Num 0))
       \<and> getitem df' ''required-distance'' = Inr (replicate (nrows df) (Num 1.93))"
    using earth_wire_original[OF assms] earth_wire_copy[OF assms] by blast
  then show "getitem df' ''C1'' = Inr (replicate (nrows df) (Num 1.93))"
    "getitem df' ''C2'' = Inr (replicate (nrows df) (Num 0))"
    "getitem df' ''required-distance'' = Inr (replicate (nrows df) (Num 1.93))"
    by simp_all
next
  assume h: "wf_frame df
     \<and> (\<exists>c\<in>set (candidates d1 d2). has_col df c)
     \<and> (\<exists>c\<in>set (candidates d3 d4). has_col df c)
     \<and> has_col df beta_col
     \<and> (\<exists>j m. loc df j dist_col = Inr (Num m))"
  then obtain j m where "loc df j dist_col = Inr (Num m)" by blast
  with h show "\<exists>df'. process_sheet df d1 d2 d3 d4 = Inr df'
     \<and> (has_col df ''Station'' \<longrightarrow>
          (\<exists>summ. process_sheet_copy df d1 d2 d3 d4 = Inr (df', summ)
             \<and> s_c1 summ = Num 1.93 \<and> s_c2 summ = Num 0 \<and> s_req summ = Num 1.93))"
    using earth_wire_sheet_is_processed[OF assms] by blast
qed

theorem earth_wire_flat_threshold_witness:
  "which_circuit 59 = EARTH_WIRE \<and> wf_frame ew_sheet \<and> sheet_dtype ew_sheet = Object
   \<and> has_col ew_sheet ''Sag of 59-39'' \<and> has_col ew_sheet ''Straight Distance of 41-21''
   \<and> has_col ew_sheet beta_col \<and> has_col ew_sheet ''Station''
   \<and> loc ew_sheet 1 ''Sag of 59-39'' = Inr NaN \<and> loc ew_sheet 1 beta_col = Inr NaN
   \<and> loc ew_sheet 1 dist_col = Inr (Num 4)
   \<and> process_sheet ew_sheet 59 39 41 21 = Inr ew_sheet_out
   \<and> process_sheet_copy ew_sheet 59 39 41 21 = Inr (ew_sheet_out, ew_summary)
   \<and> getitem ew_sheet_out ''C1'' = Inr [Num 1.93, Num 1.93]
   \<and> getitem ew_sheet_out ''C2'' = Inr [Num 0, Num 0]
   \<and> getitem ew_sheet_out ''required-distance'' = Inr [Num 1.93, Num 1.93]
   \<and> s_c1 ew_summary = Num 1.93 \<and> s_c2 ew_summary = Num 0 \<and> s_req ew_summary = Num 1.93"
proof -
  have ew: "which_circuit 59 = EARTH_WIRE \<or> which_circuit 41 = EARTH_WIRE"
    by (simp add: which_circuit_def CIRCUIT_1_def CIRCUIT_2_def)
  have w: "which_circuit 59 = EARTH_WIRE"
    by (simp add: which_circuit_def CIRCUIT_1_def CIRCUIT_2_def)
  have h: "wf_frame ew_sheet" "sheet_dtype ew_sheet = Object"
    "has_col ew_sheet ''Sag of 59-39''" "has_col ew_sheet ''Straight Distance of 41-21''"
    "has_col ew_sheet beta_col" "has_col ew_sheet ''Station''"
    "loc ew_sheet 1 ''Sag of 59-39'' = Inr NaN" "loc ew_sheet 1 beta_col = Inr NaN"
    "loc ew_sheet 1 dist_col = Inr (Num 4)"
    by (simp_all add: ew_sheet_def wf_frame_def eval_defs)
  have c: "''Sag of 59-39'' \<in> set (candidates 59 39)"
    "''Straight Distance of 41-21'' \<in> set (candidates 41 21)"
    by (simp_all add: eval_defs)
  have n: "replicate (nrows ew_sheet) x = [x, x]" for x :: cell
    by (simp add: ew_sheet_def replicate_numeral)
  note t = earth_wire_flat_threshold[OF ew, where df = ew_sheet and ?d2.0 = 39 and ?d4.0 = 21]
  from t h c obtain df' where
    r1: "process_sheet ew_sheet 59 39 41 21 = Inr df'"
    and r2: "has_col ew_sheet ''Station'' \<longrightarrow>
      (\<exists>summ. process_sheet_copy ew_sheet 59 39 41 21 = Inr (df', summ)
         \<and> s_c1 summ = Num 1.93 \<and> s_c2 summ = Num 0 \<and> s_req summ = Num 1.93)"
    by blast
  from r2 h(6) obtain summ where
    r: "process_sheet ew_sheet 59 39 41 21 = Inr df'"
       "process_sheet_copy ew_sheet 59 39 41 21 = Inr (df', summ)"
       "s_c1 summ = Num 1.93" "s_c2 summ = Num 0" "s_req summ = Num 1.93"
    using r1 by blast
  from t r(2) have cols: "getitem df' ''C1'' = Inr (replicate (nrows ew_sheet) (Num 1.93))"
    "getitem df' ''C2'' = Inr (replicate (nrows ew_sheet) (Num 0))"
    "getitem df' ''required-distance'' = Inr (replicate (nrows ew_sheet) (Num 1.93))"
    by blast+
  from r(1,2) have e: "df' = ew_sheet_out" "summ = ew_summary"
    by (simp_all add: ew_sheet_run ew_sheet_copy_run)
  from r cols w h show ?thesis by (simp add: e n)
qed

section \<open>Missing values\<close>

text \<open>
  calculations.py on a sheet of two real circuits as its \<open>process_workbook\<close> reads it, with
  object columns: the square root of step 2-6 raises a TypeError, whatever the cells
  hold.  The copy coerces the columns of the formula first.
\<close>

lemma process_sheet_object_columns:
  assumes "wf_frame df" and "sheet_dtype df = Object" and "0 < nrows df"
    and "which_circuit d1 \<noteq> EARTH_WIRE" and "which_circuit d3 \<noteq> EARTH_WIRE"
    and "pick_distance_col df d1 d2 = Inr c12" and "pick_distance_col df d3 d4 = Inr c34"
    and "has_col df beta_col"
  shows "process_sheet df d1 d2 d3 d4 = Inl TypeError"
proof -
  from assms(6-8) obtain sd12 sd34 bt where
    g: "getitem df c12 = Inr sd12" "getitem df c34 = Inr sd34" "getitem df beta_col = Inr bt"
    using pick_distance_col_getitem has_col_getitem by metis
  have len: "length sd12 = nrows df" "length sd34 = nrows df"
    using assms(1) g by (auto dest: wf_frame_length)
  have "length (map2 cell_add (map2 row_max sd12 sd34) (replicate (nrows df) (Num 2)))
      = nrows df"
    using len by simp
  with assms(3) have "map2 cell_add (map2 row_max sd12 sd34) (replicate (nrows df) (Num 2))
      \<noteq> []"
    by (metis length_0_conv less_numeral_extra(3))
  with assms(2,4,5) have "sqrt_of_objects df d1 d3 sd12 sd34"
    by (simp add: sqrt_of_objects_def sqrt_raises_def)
  then show ?thesis
    by (simp add: process_sheet_def add_sag_K_LK_eq[OF assms(6,7) g] add_required_eq)
qed

lemma gap_sheet_original_run: "process_sheet gap_sheet 41 42 43 44 = Inl TypeError"
  by (simp add: gap_sheet_def eval_defs)

text \<open>
  Claim C7, as amended.  On a sheet of two real circuits that has its columns and one
  row \<open>j\<close> with all its values (and sag + LK not negative), \<open>process_sheet\<close> of
  calculations-copy.py raises nothing whatever values other rows lack, with object
  columns as with float64 columns (it needs the column Station for its summary), and
  so does \<open>process_sheet\<close> of calculations.py on float64 columns.  A row without a beta
  angle, or without both of its distance/sag values, gets a missing required-distance and
  diff; a row without a measured distance gets a missing diff; row \<open>j\<close> is computed from
  its own values.
\<close>

theorem missing_values_stay_in_their_row:
  assumes "wf_frame df"
    and "which_circuit d1 \<noteq> EARTH_WIRE" and "which_circuit d3 \<noteq> EARTH_WIRE"
    and "pick_distance_col df d1 d2 = Inr c12" and "pick_distance_col df d3 d4 = Inr c34"
    and "loc df j c12 = Inr (Num a)" and "loc df j c34 = Inr (Num b)"
    and "loc df j beta_col = Inr (Num bta)" and "loc df j dist_col = Inr (Num m)"
    and "0 \<le> max a b + 2"
    and "i < nrows df"
  shows "\<exists>df'.
       (has_col df ''Station'' \<longrightarrow>
          (\<exists>summ. process_sheet_copy df d1 d2 d3 d4 = Inr (df', summ)))
     \<and> (sheet_dtype df = Float64 \<longrightarrow> process_sheet df d1 d2 d3 d4 = Inr df')
     \<and> (loc df i beta_col = Inr NaN \<or> (loc df i c12 = Inr NaN \<and> loc df i c34 = Inr NaN) \<longrightarrow>
          loc df' i ''required-distance'' = Inr NaN \<and> loc df' i ''diff'' = Inr NaN)
     \<and> (loc df i dist_col = Inr NaN \<longrightarrow> loc df' i ''diff'' = Inr NaN)
     \<and> loc df' j ''diff'' =
          Inr (Num (m - ((- (0.1 / 90) * bta + 0.75) * sqrt (max a b + 2)
                 + (if which_circuit d1 = which_circuit d3 then 1.93 else 2.29))))"
proof -
  from assms(6-9) obtain sd12 sd34 bt cur where
    g: "getitem df c12 = Inr sd12" "getitem df c34 = Inr sd34"
       "getitem df beta_col = Inr bt" "getitem df dist_col = Inr cur"
    and j: "j < length sd12" "sd12 ! j = Num a" "sd34 ! j = Num b" "bt ! j = Num bta"
       "cur ! j = Num m"
    by (auto simp: loc_Inr)
  have len: "length sd12 = nrows df" "length sd34 = nrows df" "length bt = nrows df"
    "length cur = nrows df"
    using g assms(1) by (auto dest: wf_frame_length)
  let ?req = "required_of d1 d3 (nrows df) sd12 sd34 bt"
  let ?diff = "map2 cell_sub cur ?req"
  have lreq: "length ?req = nrows df" using len by (simp add: length_required_of)
  have jn: "j < nrows df" using j(1) len by simp
  have reqj: "?req ! j = Num ((- (0.1 / 90) * bta + 0.75) * sqrt (max a b + 2)
                 + (if which_circuit d1 = which_circuit d3 then 1.93 else 2.29))"
    using assms(2,3,10) jn len j
    by (simp add: required_of_def nth_map5 formula_def K_of_def C1_of_def C2_of_def)
  have diffj: "?diff ! j = Num (m - ((- (0.1 / 90) * bta + 0.75) * sqrt (max a b + 2)
                 + (if which_circuit d1 = which_circuit d3 then 1.93 else 2.29)))"
    using jn len lreq j(5) by (simp add: reqj)
  from sheet_is_processed[OF assms(1,4,5) g jn diffj] obtain k where
    k: "idxmin ?diff = Inr k"
    and run: "\<not> sqrt_of_objects df d1 d3 sd12 sd34 \<Longrightarrow>
       process_sheet df d1 d2 d3 d4 = Inr (augmented df d1 d3 sd12 sd34 bt cur k)"
    and copy: "has_col df ''Station'' \<Longrightarrow> \<exists>summ. process_sheet_copy df d1 d2 d3 d4
         = Inr (augmented df d1 d3 sd12 sd34 bt cur k, summ)"
    by blast
  let ?A = "augmented df d1 d3 sd12 sd34 bt cur k"
  have floats: "process_sheet df d1 d2 d3 d4 = Inr ?A" if "sheet_dtype df = Float64"
    using that by (intro run) (simp add: sqrt_of_objects_def sqrt_raises_def)
  have reqi: "?req ! i = NaN"
    if "loc df i beta_col = Inr NaN \<or> (loc df i c12 = Inr NaN \<and> loc df i c34 = Inr NaN)"
    using that assms(2,3,11) len g
    by (auto simp: loc_Inr required_of_def nth_map5 formula_def K_of_def)
  have r1: "loc ?A i ''required-distance'' = Inr NaN \<and> loc ?A i ''diff'' = Inr NaN"
    if "loc df i beta_col = Inr NaN \<or> (loc df i c12 = Inr NaN \<and> loc df i c34 = Inr NaN)"
    using reqi[OF that] assms(11) len lreq
    by (cases "cur ! i") (simp_all add: loc_Inr getitem_augmented)
  have r2: "loc ?A i ''diff'' = Inr NaN" if "loc df i dist_col = Inr NaN"
    using that assms(11) len lreq g by (auto simp: loc_Inr getitem_augmented)
  have r3: "loc ?A j ''diff'' =
          Inr (Num (m - ((- (0.1 / 90) * bta + 0.75) * sqrt (max a b + 2)
                 + (if which_circuit d1 = which_circuit d3 then 1.93 else 2.29))))"
    using diffj jn len lreq by (simp add: loc_Inr getitem_augmented)
  from copy floats r1 r2 r3 show ?thesis by blast
qed

theorem missing_values_stay_in_their_row_witness:
  "wf_frame gap_sheet \<and> which_circuit 41 \<noteq> EARTH_WIRE \<and> which_circuit 43 \<noteq> EARTH_WIRE
   \<and> has_col gap_sheet ''Station'' \<and> sheet_dtype gap_sheet = Object
   \<and> loc gap_sheet 1 beta_col = Inr NaN
   \<and> processed_cell_copy gap_sheet 41 42 43 44 1 ''required-distance'' = Inr NaN
   \<and> processed_cell_copy gap_sheet 41 42 43 44 1 ''diff'' = Inr NaN
   \<and> processed_cell_copy gap_sheet 41 42 43 44 2 ''diff'' = Inr (Num (- 0.53))
   \<and> wf_frame gap_sheet_float \<and> sheet_dtype gap_sheet_float = Float64
   \<and> loc gap_sheet_float 1 beta_col = Inr NaN
   \<and> processed_cell gap_sheet_float 41 42 43 44 1 ''required-distance'' = Inr NaN
   \<and> processed_cell gap_sheet_float 41 42 43 44 1 ''diff'' = Inr NaN
   \<and> processed_cell gap_sheet_float 41 42 43 44 2 ''diff'' = Inr (Num (- 0.53))"
proof -
  have w: "which_circuit 41 \<noteq> EARTH_WIRE" "which_circuit 43 \<noteq> EARTH_WIRE"
    by (simp_all add: eval_defs)
  have h: "wf_frame gap_sheet"
    "pick_distance_col gap_sheet 41 42 = Inr ''Sag of 41-42''"
    "pick_distance_col gap_sheet 43 44 = Inr ''Sag of 43-44''"
    "loc gap_sheet 2 ''Sag of 41-42'' = Inr (Num 7)"
    "loc gap_sheet 2 ''Sag of 43-44'' = Inr (Num 14)"
    "loc gap_sheet 2 beta_col = Inr (Num 90)"
    "loc gap_sheet 2 dist_col = Inr (Num 4)"
    "(0::real) \<le> max 7 14 + 2" "1 < nrows gap_sheet" "has_col gap_sheet ''Station''"
    by (simp_all add: gap_sheet_def wf_frame_def eval_defs)
  have hf: "wf_frame gap_sheet_float"
    "pick_distance_col gap_sheet_float 41 42 = Inr ''Sag of 41-42''"
    "pick_distance_col gap_sheet_float 43 44 = Inr ''Sag of 43-44''"
    "loc gap_sheet_float 2 ''Sag of 41-42'' = Inr (Num 7)"
    "loc gap_sheet_float 2 ''Sag of 43-44'' = Inr (Num 14)"
    "loc gap_sheet_float 2 beta_col = Inr (Num 90)"
    "loc gap_sheet_float 2 dist_col = Inr (Num 4)"
    "(0::real) \<le> max 7 14 + 2" "1 < nrows gap_sheet_float"
    by (simp_all add: gap_sheet_float_def gap_sheet_def wf_frame_def eval_defs)
  have b: "loc gap_sheet 1 beta_col = Inr NaN" "sheet_dtype gap_sheet = Object"
    "loc gap_sheet_float 1 beta_col = Inr NaN" "sheet_dtype gap_sheet_float = Float64"
    by (simp_all add: gap_sheet_float_def gap_sheet_def eval_defs)
  from missing_values_stay_in_their_row[OF h(1) w h(2-9)] b(1) h(10) obtain df' summ where
    "process_sheet_copy gap_sheet 41 42 43 44 = Inr (df', summ)"
    "loc df' 1 ''required-distance'' = Inr NaN" "loc df' 1 ''diff'' = Inr NaN"
    "loc df' 2 ''diff'' = Inr (Num (4 - ((- (0.1 / 90) * 90 + 0.75) * sqrt (max 7 14 + 2)
                 + (if which_circuit 41 = which_circuit 43 then 1.93 else 2.29))))"
    by blast
  then have copy: "processed_cell_copy gap_sheet 41 42 43 44 1 ''required-distance'' = Inr NaN
   \<and> processed_cell_copy gap_sheet 41 42 43 44 1 ''diff'' = Inr NaN
   \<and> processed_cell_copy gap_sheet 41 42 43 44 2 ''diff'' = Inr (Num (- 0.53))"
    by (simp add: processed_cell_copy_def which_circuit_def CIRCUIT_1_def CIRCUIT_2_def)
  from missing_values_stay_in_their_row[OF hf(1) w hf(2-9)] b(3,4) obtain df' where
    "process_sheet gap_sheet_float 41 42 43 44 = Inr df'"
    "loc df' 1 ''required-distance'' = Inr NaN" "loc df' 1 ''diff'' = Inr NaN"
    "loc df' 2 ''diff'' = Inr (Num (4 - ((- (0.1 / 90) * 90 + 0.75) * sqrt (max 7 14 + 2)
                 + (if which_circuit 41 = which_circuit 43 then 1.93 else 2.29))))"
    by blast
  then have "processed_cell gap_sheet_float 41 42 43 44 1 ''required-distance'' = Inr NaN
   \<and> processed_cell gap_sheet_float 41 42 43 44 1 ''diff'' = Inr NaN
   \<and> processed_cell gap_sheet_float 41 42 43 44 2 ''diff'' = Inr (Num (- 0.53))"
    by (simp add: processed_cell_def which_circuit_def CIRCUIT_1_def CIRCUIT_2_def)
  with copy h(1,10) hf(1) w b show ?thesis by simp
qed

text \<open>
  Claim C7 as it is stated fails: the first row of the sheet lacks a value in a formula
  input column (the sag of 41-42), and its required-distance and diff are numbers, for
  the row maximum skips the missing value.  On the earth-wire sheet the second row lacks
  a sag and the beta angle, and its required-distance is the constant.
\<close>

theorem missing_value_counterexample:
  "loc gap_sheet 0 ''Sag of 41-42'' = Inr NaN
   \<and> processed_cell_copy gap_sheet 41 42 43 44 0 ''required-distance'' = Inr (Num 3.43)
   \<and> processed_cell_copy gap_sheet 41 42 43 44 0 ''diff'' = Inr (Num 1.57)
   \<and> loc gap_sheet_float 0 ''Sag of 41-42'' = Inr NaN
   \<and> processed_cell gap_sheet_float 41 42 43 44 0 ''required-distance'' = Inr (Num 3.43)
   \<and> processed_cell gap_sheet_float 41 42 43 44 0 ''diff'' = Inr (Num 1.57)
   \<and> loc ew_sheet 1 beta_col = Inr NaN
   \<and> processed_cell ew_sheet 59 39 41 21 1 ''required-distance'' = Inr (Num 1.93)
   \<and> processed_cell ew_sheet 59 39 41 21 1 ''diff'' = Inr (Num 2.07)
   \<and> processed_cell_copy ew_sheet 59 39 41 21 1 ''required-distance'' = Inr (Num 1.93)
   \<and> processed_cell_copy ew_sheet 59 39 41 21 1 ''diff'' = Inr (Num 2.07)"
  by (simp add: processed_cell_def processed_cell_copy_def gap_sheet_float_def gap_sheet_def
      ew_sheet_def eval_defs)

section \<open>Facts about the matcher\<close>

lemma first_some_skip:
  assumes "\<forall>x\<in>set pre. f x = None" "f x0 = Some y"
  shows "first_some (map f (pre @ x0 # post)) = Some y"
  using assms by (induction pre) auto

lemma match_rep_greedy:
  assumes "length (takeWhile (in_cls c) s) = m" "lo \<le> m"
    "match_items is (drop m s) = Some r"
  shows "match_items (Rep Greedy lo c # is) s = Some (take m s # r)"
proof -
  have "counts Greedy lo m = m # rev [lo..<m]"
    using assms(2) by (simp add: counts_def)
  then show ?thesis using assms by (simp add: match_items.simps(4))
qed

lemma match_rep_lazy:
  assumes "length (takeWhile (in_cls c) s) = m" "lo \<le> n0" "n0 \<le> m"
    "\<forall>n. lo \<le> n \<and> n < n0 \<longrightarrow> match_items is (drop n s) = None"
    "match_items is (drop n0 s) = Some r"
  shows "match_items (Rep Lazy lo c # is) s = Some (take n0 s # r)"
proof -
  have "[lo..<Suc m] = [lo..<n0] @ n0 # [Suc n0..<Suc m]"
  proof -
    have "[lo..<n0 + (Suc m - n0)] = [lo..<n0] @ [n0..<n0 + (Suc m - n0)]"
      using assms(2) by (rule upt_add_eq_append)
    moreover have "n0 + (Suc m - n0) = Suc m" using assms(3) by simp
    moreover have "[n0..<Suc m] = n0 # [Suc n0..<Suc m]"
      using assms(3) by (simp add: upt_conv_Cons)
    ultimately show ?thesis by simp
  qed
  then have "counts Lazy lo m = [lo..<n0] @ n0 # [Suc n0..<Suc m]"
    by (simp add: counts_def)
  moreover have "\<forall>n\<in>set [lo..<n0].
      map_option ((#) (take n s)) (match_items is (drop n s)) = None"
    using assms(4) by simp
  ultimately show ?thesis
    using assms(1,5)
    first_some_skip[of "[lo..<n0]"
      "\<lambda>n. map_option ((#) (take n s)) (match_items is (drop n s))" n0 "take n0 s # r"
      "[Suc n0..<Suc m]"]
    by (simp add: match_items.simps(4))
qed

lemma match_lit:
  "match_items (lit t @ is) (t @ s) = map_option ((@) (map (\<lambda>c. [c]) t)) (match_items is s)"
  by (induction t) (auto simp: lit_def option.map_comp comp_def option.map_ident)

lemma match_chr_fail: "x \<noteq> c \<Longrightarrow> match_items (One (Chr c) # is) (x # xs) = None"
  by simp

lemma takeWhile_run:
  assumes "\<forall>x\<in>set xs. P x" "ys = [] \<or> \<not> P (hd ys)"
  shows "takeWhile P (xs @ ys) = xs"
  using assms by (cases ys) (auto simp: takeWhile_append)

section \<open>The swap of a wind sheet name\<close>

lemma digit_not_sep: "is_digit c \<Longrightarrow> c \<noteq> CHR ''_'' \<and> c \<noteq> CHR 0x0A \<and> c \<noteq> CHR ''-''"
  by (auto simp: is_digit_def)

lemma digit_hyphen_not_sep: "in_cls DigitHyphen c \<Longrightarrow> c \<noteq> CHR ''_'' \<and> c \<noteq> CHR 0x0A"
  by (auto simp: is_digit_def)

lemma match_digits_end:
  assumes "digit_string p"
  shows "match_items [Rep Greedy 1 Digit] p = Some [p]"
proof -
  have "\<forall>x\<in>set p. in_cls Digit x"
    using assms by (simp add: digit_string_def)
  then have "length (takeWhile (in_cls Digit) p) = length p"
    by (induction p) auto
  moreover have "1 \<le> length p" using assms by (cases p) (auto simp: digit_string_def)
  moreover have "match_items [] (drop (length p) p) = Some []" by simp
  ultimately show ?thesis using match_rep_greedy by fastforce
qed

lemma match_segment:
  assumes "digits_hyphens b" "digit_string p"
  shows "match_items ([Rep Greedy 1 DigitHyphen] @ lit ''_W'' @ [Rep Greedy 1 Digit])
           (b @ ''_W'' @ p) = Some [b, ''_'', ''W'', p]"
proof -
  have tw: "takeWhile (in_cls DigitHyphen) (b @ ''_W'' @ p) = b"
    using assms(1) by (intro takeWhile_run) (auto simp: digits_hyphens_def is_digit_def)
  have "match_items (lit ''_W'' @ [Rep Greedy 1 Digit]) (''_W'' @ p) = Some [''_'', ''W'', p]"
    using match_digits_end[OF assms(2)] by (simp only: match_lit) simp
  then have rest: "match_items (lit ''_W'' @ [Rep Greedy 1 Digit])
      (drop (length b) (b @ ''_W'' @ p)) = Some [''_'', ''W'', p]" by simp
  have b1: "1 \<le> length b" using assms(1) by (cases b) (auto simp: digits_hyphens_def)
  have "length (takeWhile (in_cls DigitHyphen) (b @ ''_W'' @ p)) = length b"
    by (simp only: tw)
  from match_rep_greedy[OF this b1 rest] show ?thesis by simp
qed

lemma match_pressure_then:
  assumes "digit_string p" "match_items is (CHR ''_'' # s) = Some r"
  shows "match_items (Rep Greedy 1 Digit # is) (p @ CHR ''_'' # s) = Some (p # r)"
proof -
  have tw: "takeWhile (in_cls Digit) (p @ CHR ''_'' # s) = p"
    using assms(1) by (intro takeWhile_run) (auto simp: digit_string_def is_digit_def)
  have "1 \<le> length p" using assms(1) by (cases p) (auto simp: digit_string_def)
  moreover have "match_items is (drop (length p) (p @ CHR ''_'' # s)) = Some r"
    using assms(2) by simp
  ultimately show ?thesis using match_rep_greedy[of Digit "p @ CHR ''_'' # s" "length p" 1 "is" r] tw
    by simp
qed

lemma match_swap_pattern:
  assumes "digits_hyphens a" "digit_string p1" "digits_hyphens b" "digit_string p2"
  shows "match_items swap_pattern (wind_name a p1 b p2)
           = Some [a, ''_'', ''W'', p1, ''_'', b, ''_'', ''W'', p2]"
proof -
  let ?tail = "lit ''_W'' @ [Rep Greedy 1 Digit] @ lit ''_''
     @ [Rep Greedy 1 DigitHyphen] @ lit ''_W'' @ [Rep Greedy 1 Digit]"
  let ?s1 = "''_W'' @ p1 @ ''_'' @ b @ ''_W'' @ p2"
  have seg: "match_items (lit ''_'' @ [Rep Greedy 1 DigitHyphen] @ lit ''_W'' @ [Rep Greedy 1 Digit])
      (''_'' @ b @ ''_W'' @ p2) = Some [''_'', b, ''_'', ''W'', p2]"
    using match_segment[OF assms(3,4)] by (simp only: match_lit) simp
  have "match_items (Rep Greedy 1 Digit # lit ''_'' @ [Rep Greedy 1 DigitHyphen] @ lit ''_W''
      @ [Rep Greedy 1 Digit]) (p1 @ CHR ''_'' # b @ ''_W'' @ p2) = Some (p1 # [''_'', b, ''_'', ''W'', p2])"
    using seg by (intro match_pressure_then[OF assms(2)]) simp
  then have tail: "match_items ?tail ?s1 = Some [''_'', ''W'', p1, ''_'', b, ''_'', ''W'', p2]"
    by (simp add: lit_def)
  have a_all: "\<forall>x\<in>set a. in_cls Any x"
    using assms(1) digit_hyphen_not_sep by (auto simp: digits_hyphens_def)
  have "takeWhile (in_cls Any) (a @ ?s1) = a @ takeWhile (in_cls Any) ?s1"
    using a_all by (simp add: takeWhile_append2)
  then have le: "length a \<le> length (takeWhile (in_cls Any) (a @ ?s1))" by simp
  have a1: "1 \<le> length a" using assms(1) by (cases a) (auto simp: digits_hyphens_def)
  have early: "\<forall>n. 1 \<le> n \<and> n < length a \<longrightarrow> match_items ?tail (drop n (a @ ?s1)) = None"
  proof (intro allI impI)
    fix n assume n: "1 \<le> n \<and> n < length a"
    then obtain x xs where d: "drop n a = x # xs" by (cases "drop n a") auto
    then have "x \<in> set a" by (metis in_set_dropD list.set_intros(1))
    then have "x \<noteq> CHR ''_''"
      using assms(1) digit_hyphen_not_sep by (auto simp: digits_hyphens_def)
    then show "match_items ?tail (drop n (a @ ?s1)) = None"
      using n d by (simp add: lit_def)
  qed
  have "match_items ?tail (drop (length a) (a @ ?s1)) =
      Some [''_'', ''W'', p1, ''_'', b, ''_'', ''W'', p2]"
    using tail by simp
  from match_rep_lazy[OF refl a1 le early this]
  show ?thesis by (simp add: swap_pattern_def wind_name_def)
qed

lemma swap_wind_name:
  assumes "digits_hyphens a" "digit_string p1" "digits_hyphens b" "digit_string p2"
  shows "swap_sheet_name (wind_name a p1 b p2) = wind_name b p2 a p1"
  using match_swap_pattern[OF assms]
  by (simp add: swap_sheet_name_def re_match_def group_def wind_name_def)

lemma not_wind_grammar_x: "\<not> wind_grammar ''x_W1_2_W3''"
proof
  assume "wind_grammar ''x_W1_2_W3''"
  then obtain a p1 b p2 where a: "digits_hyphens a"
    and s: "''x_W1_2_W3'' = wind_name a p1 b p2"
    by (auto simp: wind_grammar_def)
  from a obtain c cs where c: "a = c # cs" "in_cls DigitHyphen c"
    by (cases a) (auto simp: digits_hyphens_def)
  with s have "c = CHR ''x''" by (simp add: wind_name_def)
  with c(2) show False by (simp add: is_digit_def)
qed

text \<open>
  Claim C10, as amended.  On a name \<open><a>_W<p1>_<b>_W<p2>\<close>, with \<open>a\<close> and \<open>b\<close> of digits
  and hyphens and \<open>p1\<close> and \<open>p2\<close> of digits, none of them empty, \<open>swap_sheet_name\<close>
  exchanges the two segments, and applied twice it returns the name.  A name that the
  pattern of the function does not match at its start is returned as it is.
\<close>

theorem swap_sheet_name_involution:
  assumes "digits_hyphens a" "digit_string p1" "digits_hyphens b" "digit_string p2"
  shows "swap_sheet_name (wind_name a p1 b p2) = wind_name b p2 a p1
     \<and> swap_sheet_name (swap_sheet_name (wind_name a p1 b p2)) = wind_name a p1 b p2
     \<and> (re_match swap_pattern s = None \<longrightarrow> swap_sheet_name s = s)"
  using swap_wind_name[OF assms] swap_wind_name[OF assms(3,4,1,2)]
  by (simp add: swap_sheet_name_def)

theorem swap_sheet_name_involution_witness:
  "digits_hyphens ''41-21'' \<and> digit_string ''650'' \<and> digits_hyphens ''59-39''
   \<and> digit_string ''390''
   \<and> swap_sheet_name ''41-21_W650_59-39_W390'' = ''59-39_W390_41-21_W650''
   \<and> swap_sheet_name (swap_sheet_name ''41-21_W650_59-39_W390'') = ''41-21_W650_59-39_W390''
   \<and> re_match swap_pattern ''Summary'' = None \<and> swap_sheet_name ''Summary'' = ''Summary''"
proof -
  have h: "digits_hyphens ''41-21''" "digit_string ''650''" "digits_hyphens ''59-39''"
    "digit_string ''390''"
    by (simp_all add: digits_hyphens_def digit_string_def is_digit_def)
  have n: "re_match swap_pattern ''Summary'' = None" by code_simp
  note t = swap_sheet_name_involution[OF h, of "''Summary''", unfolded wind_name_def append.simps]
  have t1: "swap_sheet_name ''41-21_W650_59-39_W390'' = ''59-39_W390_41-21_W650''"
    by (rule t[THEN conjunct1])
  have t2: "swap_sheet_name (swap_sheet_name ''41-21_W650_59-39_W390'') = ''41-21_W650_59-39_W390''"
    by (rule t[THEN conjunct2, THEN conjunct1])
  have t3: "swap_sheet_name ''Summary'' = ''Summary''"
    using t[THEN conjunct2, THEN conjunct2] n by blast
  from t1 t2 t3 n h show ?thesis by blast
qed

text \<open>
  Claim C10 as it is stated fails in its last part: the first segment of the pattern is
  \<open>.+?\<close>, so a name outside the grammar is matched and changed, and the second
  application does not bring it back.
\<close>

theorem swap_sheet_name_counterexample:
  "\<not> wind_grammar ''x_W1_2_W3''
   \<and> swap_sheet_name ''x_W1_2_W3'' = ''2_W3_x_W1''
   \<and> swap_sheet_name (swap_sheet_name ''x_W1_2_W3'') = ''2_W3_x_W1''"
proof -
  have "swap_sheet_name ''x_W1_2_W3'' = ''2_W3_x_W1''" by code_simp
  moreover have "swap_sheet_name ''2_W3_x_W1'' = ''2_W3_x_W1''" by code_simp
  ultimately show ?thesis using not_wind_grammar_x by simp
qed

section \<open>The wind-pressure variant\<close>

lemma row_max_replicate:
  "map2 row_max (replicate n (Num a)) (replicate n (Num b)) = replicate n (Num (max a b))"
  by (induction n) auto

text \<open>
  Claim C4.  In the wind-pressure variant, when the codes d1 and d3 read in the sheet name
  are in the same circuit group, the columns are C3 = 1.35 and C4 = 0, otherwise C3 = 0
  and C4 = 1.60, and in both cases Required distance is max(C3, C4) in every row.
\<close>

theorem wind_required_distance:
  assumes "wind_codes sheet_name = Some (d1, d3)"
  shows "\<exists>df'. add_distance_columns df sheet_name = Inr df'
     \<and> getitem df' ''C3'' =
         Inr (replicate (nrows df) (Num (if same_circuit d1 d3 then 1.35 else 0)))
     \<and> getitem df' ''C4'' =
         Inr (replicate (nrows df) (Num (if same_circuit d1 d3 then 0 else 1.60)))
     \<and> getitem df' ''Required distance'' =
         Inr (replicate (nrows df)
           (Num (max (if same_circuit d1 d3 then 1.35 else 0)
                     (if same_circuit d1 d3 then 0 else 1.60))))"
  using assms
  by (cases "same_circuit d1 d3")
     (simp_all add: add_distance_columns_def Let_def row_max_replicate)

theorem wind_required_distance_witness:
  "wind_codes ''41-21_W650_42-22_W390'' = Some (''41'', ''42'') \<and> same_circuit ''41'' ''42''
   \<and> wind_codes ''41-21_W650_44-24_W390'' = Some (''41'', ''44'') \<and> \<not> same_circuit ''41'' ''44''
   \<and> (\<exists>df'. add_distance_columns wind_sheet ''41-21_W650_42-22_W390'' = Inr df'
        \<and> getitem df' ''C3'' = Inr [Num 1.35, Num 1.35]
        \<and> getitem df' ''C4'' = Inr [Num 0, Num 0]
        \<and> getitem df' ''Required distance'' = Inr [Num 1.35, Num 1.35])
   \<and> (\<exists>df'. add_distance_columns wind_sheet ''41-21_W650_44-24_W390'' = Inr df'
        \<and> getitem df' ''C3'' = Inr [Num 0, Num 0]
        \<and> getitem df' ''C4'' = Inr [Num 1.60, Num 1.60]
        \<and> getitem df' ''Required distance'' = Inr [Num 1.60, Num 1.60])"
proof -
  have c1: "wind_codes ''41-21_W650_42-22_W390'' = Some (''41'', ''42'')" by code_simp
  have c2: "wind_codes ''41-21_W650_44-24_W390'' = Some (''41'', ''44'')" by code_simp
  have s1: "same_circuit ''41'' ''42''" and s2: "\<not> same_circuit ''41'' ''44''"
    by (simp_all add: same_circuit_def C_GROUP_1_def C_GROUP_2_def)
  have n: "replicate (nrows wind_sheet) x = [x, x]" for x :: cell
    by (simp add: wind_sheet_def replicate_numeral)
  from wind_required_distance[OF c1, of wind_sheet] wind_required_distance[OF c2, of wind_sheet]
  show ?thesis using c1 c2 s1 s2 by (simp add: n)
qed

section \<open>A results workbook that is absent or incomplete\<close>

lemma open_results_wb_missing:
  assumes "templates_missing fs"
  shows "open_results_wb fs = Inl (precondition_error fs)"
  using assms
  by (auto simp: templates_missing_def open_results_wb_def precondition_error_def Let_def
      split: option.splits)

lemma process_workbook_missing:
  assumes "templates_missing fs"
  shows "process_workbook fs fp = Inl (failure_of fs fp)"
  using open_results_wb_missing[OF assms]
  by (cases "load_metadata fp")
     (auto simp: process_workbook_def failure_of_def Let_def split: prod.splits)

lemma main_loop_missing:
  assumes "templates_missing fs"
  shows "foldl main_step (fs, acc) file_list
           = (fs, acc @ map (\<lambda>fp. Failed fp (failure_of fs fp)) file_list)"
  by (induction file_list arbitrary: acc)
     (simp_all add: main_step_def process_workbook_missing[OF assms])

lemma main_missing:
  assumes "templates_missing fs" "file_list \<noteq> []"
  shows "main fs file_list = (fs, map (\<lambda>fp. Failed fp (failure_of fs fp)) file_list)"
  using assms(2) main_loop_missing[OF assms(1), of "[]"] by (simp add: main_def)

lemma templates_missing_files [simp]:
  "templates_missing (fs\<lparr>files := other\<rparr>) = templates_missing fs"
  by (simp add: templates_missing_def)

lemma precondition_error_files [simp]:
  "precondition_error (fs\<lparr>files := other\<rparr>) = precondition_error fs"
  by (simp add: precondition_error_def)

lemma failure_of_files [simp]: "failure_of (fs\<lparr>files := other\<rparr>) fp = failure_of fs fp"
  by (simp add: failure_of_def split: sum.splits)

text \<open>
  Claim C6, as amended.  When the results workbook does not exist, or lacks one of the two
  template sheets, \<open>process_workbook\<close> raises the precondition error (FileNotFoundError,
  KeyError) for every file whose name has the expected form, before it opens the source
  workbook and whatever the source workbooks hold; \<open>main\<close> catches the error, reports
  the file and goes on, so that every file of the run is reported as failed and nothing
  is written.
\<close>

theorem missing_results_workbook_fails_every_file:
  assumes "templates_missing fs"
  shows "open_results_wb fs = Inl (precondition_error fs)
     \<and> (\<forall>fp meta. load_metadata fp = Inr meta \<longrightarrow>
          process_workbook (fs\<lparr>files := other\<rparr>) fp = Inl (precondition_error fs))
     \<and> (file_list \<noteq> [] \<longrightarrow>
          main (fs\<lparr>files := other\<rparr>) file_list
            = (fs\<lparr>files := other\<rparr>, map (\<lambda>fp. Failed fp (failure_of fs fp)) file_list))"
proof -
  have m: "templates_missing (fs\<lparr>files := other\<rparr>)" using assms by simp
  have "process_workbook (fs\<lparr>files := other\<rparr>) fp = Inl (precondition_error fs)"
    if "load_metadata fp = Inr meta" for fp meta
    using process_workbook_missing[OF m, of fp] that by (simp add: failure_of_def)
  moreover have "main (fs\<lparr>files := other\<rparr>) file_list
            = (fs\<lparr>files := other\<rparr>, map (\<lambda>fp. Failed fp (failure_of fs fp)) file_list)"
    if "file_list \<noteq> []"
    using main_missing[OF m that] by simp
  ultimately show ?thesis using open_results_wb_missing[OF assms] by blast
qed

lemma load_metadata_examples:
  "load_metadata ''in/Cond_10C_TR1730a001_002.xlsx'' = Inr (''TR1730a001'', ''002'')"
  "load_metadata ''in/Cond_10C_notes.xlsx'' = Inl ValueError"
  "load_metadata ''in/Cond_10C_TR1730a002_003.xlsx'' = Inr (''TR1730a002'', ''003'')"
  by code_simp+

lemma templates_missing_examples:
  "templates_missing no_results" "templates_missing no_ew_template"
  "precondition_error no_results = FileNotFoundError"
  "precondition_error no_ew_template = KeyError"
  by (simp_all add: templates_missing_def precondition_error_def no_results_def
      no_ew_template_def PH_PH_SHEET_def PH_EW_SHEET_def)

theorem missing_results_workbook_fails_every_file_witness:
  "templates_missing no_ew_template
   \<and> open_results_wb no_ew_template = Inl KeyError
   \<and> load_metadata ''in/Cond_10C_TR1730a001_002.xlsx'' = Inr (''TR1730a001'', ''002'')
   \<and> process_workbook no_ew_template ''in/Cond_10C_TR1730a001_002.xlsx'' = Inl KeyError
   \<and> main no_ew_template [''in/Cond_10C_TR1730a001_002.xlsx'', ''in/Cond_10C_TR1730a002_003.xlsx'']
       = (no_ew_template, [Failed ''in/Cond_10C_TR1730a001_002.xlsx'' KeyError,
                           Failed ''in/Cond_10C_TR1730a002_003.xlsx'' KeyError])"
proof -
  have self: "no_ew_template\<lparr>files := files no_ew_template\<rparr> = no_ew_template" by simp
  note t = missing_results_workbook_fails_every_file[OF templates_missing_examples(2),
      of "files no_ew_template"
         "[''in/Cond_10C_TR1730a001_002.xlsx'', ''in/Cond_10C_TR1730a002_003.xlsx'']",
      unfolded self]
  from t have "open_results_wb no_ew_template = Inl KeyError"
    by (simp add: templates_missing_examples)
  moreover from t load_metadata_examples(1)
  have "process_workbook no_ew_template ''in/Cond_10C_TR1730a001_002.xlsx'' = Inl KeyError"
    by (simp add: templates_missing_examples)
  moreover from t have
    "main no_ew_template [''in/Cond_10C_TR1730a001_002.xlsx'', ''in/Cond_10C_TR1730a002_003.xlsx'']
       = (no_ew_template, [Failed ''in/Cond_10C_TR1730a001_002.xlsx'' KeyError,
                           Failed ''in/Cond_10C_TR1730a002_003.xlsx'' KeyError])"
    by (simp add: failure_of_def load_metadata_examples templates_missing_examples)
  ultimately show ?thesis
    using templates_missing_examples(2) load_metadata_examples(1) by blast
qed

text \<open>
  Claim C6 as it is stated fails where it calls the error fatal for the entire run: with
  no results workbook \<open>main\<close> does not stop at the first file.  It goes through the three
  files, reports the second for its name and not for the precondition, and ends.
\<close>

theorem missing_results_workbook_counterexample:
  "results no_results = None
   \<and> main no_results [''in/Cond_10C_TR1730a001_002.xlsx'', ''in/Cond_10C_notes.xlsx'',
        ''in/Cond_10C_TR1730a002_003.xlsx'']
      = (no_results,
         [Failed ''in/Cond_10C_TR1730a001_002.xlsx'' FileNotFoundError,
          Failed ''in/Cond_10C_notes.xlsx'' ValueError,
          Failed ''in/Cond_10C_TR1730a002_003.xlsx'' FileNotFoundError])"
  using main_missing[OF templates_missing_examples(1),
      of "[''in/Cond_10C_TR1730a001_002.xlsx'', ''in/Cond_10C_notes.xlsx'',
        ''in/Cond_10C_TR1730a002_003.xlsx'']"]
  by (simp add: failure_of_def load_metadata_examples templates_missing_examples)
     (simp add: no_results_def)

lemma parse_sheet_name_examples:
  "parse_sheet_name ''41-42_43-44'' = Inr (41, 42, 43, 44)"
  "parse_sheet_name ''59-39_41-21'' = Inr (59, 39, 41, 21)"
  by code_simp+

text \<open>
  With the two template sheets in place the first workbook of the folder is processed:
  its sheet is replaced by the processed one in the copy that is written, and the
  summary row goes to row 2 of the phase to phase sheet.
\<close>

lemma ph_sheet_read_run:
  "process_sheet_copy (read_sheet ph_sheet) 41 42 43 44 = Inr (read_sheet ph_sheet_out, ph_summary)"
  by (simp add: ph_sheet_def ph_sheet_out_def ph_summary_def eval_defs)

lemma process_workbook_example:
  "\<exists>fs'. process_workbook with_results ''in/Cond_10C_TR1730a001_002.xlsx'' = Inr fs'
     \<and> map_of (files fs') ''in/Cond_10C_TR1730a001_002_processed.xlsx''
          = Some [(''41-42_43-44'', read_sheet ph_sheet_out)]
     \<and> map_option (map (\<lambda>p. (fst p, max_row (snd p)))) (results fs')
          = Some [(PH_PH_SHEET, 2), (PH_EW_SHEET, 4)]"
  by (simp add: process_workbook_def load_metadata_examples open_results_wb_def with_results_def
      no_results_def Let_def PH_PH_SHEET_def PH_EW_SHEET_def sheet_step_def
      parse_sheet_name_examples ph_sheet_read_run which_circuit_def CIRCUIT_1_def CIRCUIT_2_def
      EARTH_WIRE_def summary_puts_def put_def COL_PH_PH_def COL_PH_EW_def ws_cell_def
      ph_summary_def splitext_root_def)

end
